theory Spec2Isabelle
  imports Complex_Main
begin

section \<open>Exceptions and command-line arguments\<close>

text \<open>
  The exception classes that occur in \<^verbatim>\<open>cpu.py\<close>. \<open>ValueError\<close> and every other
  subclass of \<open>Exception\<close> (\<open>OtherException\<close>: an \<open>OSError\<close> of \<open>Process.start\<close>, a psutil
  error, ...) are caught by \<^verbatim>\<open>except Exception\<close>; \<open>KeyboardInterrupt\<close> and \<open>SystemExit\<close>
  derive from \<open>BaseException\<close> only and are not.
\<close>

datatype exn =
    ValueError string
  | KeyboardInterrupt
  | SystemExit int
  | OtherException string

fun is_Exception :: "exn \<Rightarrow> bool" where
  "is_Exception (ValueError _) = True"
| "is_Exception (OtherException _) = True"
| "is_Exception KeyboardInterrupt = False"
| "is_Exception (SystemExit _) = False"

text \<open>The namespace returned by \<^verbatim>\<open>parser.parse_args()\<close>; Python integers are unbounded.\<close>

record args =
  args_cores :: int
  args_time :: int
  args_intensity :: int
  args_memory_processes :: int
  args_memory_size :: int
  args_cpu_only :: bool

text \<open>
  \<^verbatim>\<open>validate_args\<close> (lines 273-290). The result is the raised exception, or the list of
  warnings printed on the way (the function itself returns nothing). The host's
  \<^verbatim>\<open>multiprocessing.cpu_count()\<close> is a parameter.
\<close>

datatype warning = Warn_cores int int | Warn_memory int

definition validate_args :: "int \<Rightarrow> args \<Rightarrow> exn + warning list" where
  "validate_args cpu_count a =
    (if args_cores a \<le> 0 then Inl (ValueError ''Number of cores must be positive'')
     else if args_time a \<le> 0 then Inl (ValueError ''Duration must be positive'')
     else if args_intensity a \<le> 0 then Inl (ValueError ''Intensity must be positive'')
     else if args_memory_processes a < 0 then Inl (ValueError ''Memory processes cannot be negative'')
     else if args_memory_size a \<le> 0 then Inl (ValueError ''Memory size must be positive'')
     else Inr
       ((if args_cores a > cpu_count then [Warn_cores (args_cores a) cpu_count] else []) @
        (if args_memory_processes a > 0 \<and> args_memory_size a > 1000
         then [Warn_memory (args_memory_size a)] else [])))"

section \<open>The dashboard bar\<close>

text \<open>
  Lines 174-175 and 183-184 of \<^verbatim>\<open>display_dashboard\<close>:
  \<^verbatim>\<open>bar_length = int(usage / 5)\<close> and
  \<^verbatim>\<open>bar = FILLED * bar_length + BLANK * (20 - bar_length)\<close>.
  The usage is a float that psutil rounds to one decimal; it is modelled as a real
  number. \<^verbatim>\<open>int()\<close> truncates toward zero, and a string repeated a negative number
  of times is empty.
\<close>

datatype segment = Filled | Blank

definition py_int :: "real \<Rightarrow> int" where
  "py_int x = (if 0 \<le> x then \<lfloor>x\<rfloor> else \<lceil>x\<rceil>)"

definition py_repeat :: "'a \<Rightarrow> int \<Rightarrow> 'a list" where
  "py_repeat c n = replicate (nat n) c"

definition bar :: "real \<Rightarrow> segment list" where
  "bar usage =
    (let bar_length = py_int (usage / 5)
     in py_repeat Filled bar_length @ py_repeat Blank (20 - bar_length))"

section \<open>The memory workload\<close>

text \<open>
  \<^verbatim>\<open>memory_burn\<close> (lines 26-55) never returns: the claims about it are invariants of its
  outer \<^verbatim>\<open>while True\<close> loop. A chunk is represented by its allocation serial number (the
  random bytes written into it do not influence the control flow), so that the age of
  every retained chunk is visible. The touch pass of lines 43-46 rewrites bytes inside
  chunks and leaves the list \<^verbatim>\<open>data\<close> as it is.
\<close>

type_synonym chunk = nat

record burn_state =
  data :: "chunk list"
  allocated :: nat

text \<open>\<^verbatim>\<open>data[k:]\<close> for a Python integer \<open>k\<close>: a negative \<open>k\<close> counts from the end.\<close>

definition py_slice_from :: "'a list \<Rightarrow> int \<Rightarrow> 'a list" where
  "py_slice_from xs k =
    (if 0 \<le> k then drop (nat k) xs else drop (nat (int (length xs) + k)) xs)"

text \<open>Lines 35-40: \<^verbatim>\<open>for _ in range(size_mb): ...; data.append(chunk)\<close>.\<close>

fun allocate :: "nat \<Rightarrow> burn_state \<Rightarrow> burn_state" where
  "allocate 0 s = s"
| "allocate (Suc n) s =
    allocate n (s\<lparr>data := data s @ [allocated s], allocated := Suc (allocated s)\<rparr>)"

text \<open>Lines 49-50: \<^verbatim>\<open>if len(data) > size_mb * 2: data = data[size_mb:]\<close>.\<close>

definition discard :: "int \<Rightarrow> burn_state \<Rightarrow> burn_state" where
  "discard size_mb s =
    (if int (length (data s)) > size_mb * 2
     then s\<lparr>data := py_slice_from (data s) size_mb\<rparr> else s)"

text \<open>One pass through the body of the \<^verbatim>\<open>while True\<close> loop, and \<open>n\<close> passes.\<close>

definition memory_burn_cycle :: "int \<Rightarrow> burn_state \<Rightarrow> burn_state" where
  "memory_burn_cycle size_mb s = discard size_mb (allocate (nat size_mb) s)"

fun memory_burn :: "nat \<Rightarrow> int \<Rightarrow> burn_state \<Rightarrow> burn_state" where
  "memory_burn 0 size_mb s = s"
| "memory_burn (Suc n) size_mb s = memory_burn n size_mb (memory_burn_cycle size_mb s)"

definition burn_start :: burn_state where
  "burn_start = \<lparr>data = [], allocated = 0\<rparr>"

section \<open>Worker processes and the tester object\<close>

text \<open>
  A \<^verbatim>\<open>multiprocessing.Process\<close> handle is identified by a number; its target and
  argument are the workload it runs.
\<close>

type_synonym pid = nat

datatype workload = cpu_burn int | memory_burn_target int

datatype level = INFO | ERROR

text \<open>The texts that the program prints or logs, with the values they interpolate.\<close>

datatype message =
    Log_file_created
  | Interrupt_received
  | Initiating_shutdown
  | Error_cleaning_up
  | All_processes_cleaned_up
  | Started_cpu int int
  | Error_starting_cpu exn
  | Started_memory int int
  | Error_starting_memory exn
  | System_info
  | Starting_stress_test int int int
  | Completed_successfully
  | Interrupted_by_user
  | Error_during_stress_test exn
  | Dashboard "segment list list" "segment list"
  | Dashboard_metrics
  | Dashboard_error
  | Warning warning
  | Legacy_mode int int int
  | Cpu_usage
  | Legacy_finished
  | Configuration int int int int int
  | Invalid_argument string
  | Main_interrupted
  | Unexpected_error string

text \<open>
  What the program does to the outside world, in program order: calls on process
  handles, log records and printed output.
\<close>

datatype event =
    Start pid workload
  | Terminate pid
  | Join pid "nat option"
  | Kill pid
  | Log level message
  | Print message

text \<open>What happens during one pass through a polling loop.\<close>

datatype tick_outcome =
    Tick_ok
  | Tick_poll_fails
  | Tick_raise exn
  | Tick_signal

text \<open>
  The behaviour of the host, which the program cannot choose: whether the \<open>n\<close>-th call
  of \<^verbatim>\<open>Process.start\<close> fails, for which handles \<^verbatim>\<open>is_alive\<close> raises (it asserts that the
  caller is the process that started the handle), how each process reacts to
  \<^verbatim>\<open>terminate\<close> and \<^verbatim>\<open>kill\<close>,
  what each tick of a polling loop brings (a psutil poll that raises, an exception that
  escapes the loop body, a SIGINT or SIGTERM), how long a tick takes beyond its
  one-second sleep, and the polled metrics.
\<close>

record env =
  cpu_count :: int
  logging_fails :: bool
  sys_info_fails :: bool
  start_fails :: "nat \<Rightarrow> bool"
  is_alive_fails :: "pid \<Rightarrow> bool"
  terminate_fails :: "pid \<Rightarrow> bool"
  exits_on_terminate :: "pid \<Rightarrow> bool"
  kill_fails :: "pid \<Rightarrow> bool"
  tick :: "nat \<Rightarrow> tick_outcome"
  jitter :: "nat \<Rightarrow> nat"
  cpu_per_core :: "nat \<Rightarrow> real list"
  memory_percent :: "nat \<Rightarrow> real"

text \<open>
  The \<^verbatim>\<open>CPUStressTester\<close> object (\<open>processes\<close>, \<open>memory_processes\<close>, \<open>running\<close>) together
  with the part of the world it acts on: which processes are alive and what they run,
  how many times \<^verbatim>\<open>Process.start\<close> was called, the clock in milliseconds, the number
  of polling ticks so far, and the trace of events.
\<close>

record tester =
  processes :: "pid list"
  memory_processes :: "pid list"
  running :: bool
  alive :: "pid \<Rightarrow> bool"
  target :: "pid \<Rightarrow> workload option"
  started :: nat
  now :: nat
  ticks :: nat
  trace :: "event list"

definition emit :: "event \<Rightarrow> tester \<Rightarrow> tester" where
  "emit e w = w\<lparr>trace := trace w @ [e]\<rparr>"

abbreviation logger_info :: "message \<Rightarrow> tester \<Rightarrow> tester" where
  "logger_info m \<equiv> emit (Log INFO m)"

abbreviation logger_error :: "message \<Rightarrow> tester \<Rightarrow> tester" where
  "logger_error m \<equiv> emit (Log ERROR m)"

abbreviation print :: "message \<Rightarrow> tester \<Rightarrow> tester" where
  "print m \<equiv> emit (Print m)"

definition exited :: "pid \<Rightarrow> tester \<Rightarrow> tester" where
  "exited p w = w\<lparr>alive := (alive w)(p := False)\<rparr>"

text \<open>
  \<^verbatim>\<open>CPUStressTester.__init__\<close> (lines 71-76); \<^verbatim>\<open>setup_logging\<close> opens the log file, which
  may fail.
\<close>

definition CPUStressTester :: "env \<Rightarrow> tester \<Rightarrow> exn option \<times> tester" where
  "CPUStressTester env w =
    (let w1 = w\<lparr>processes := [], memory_processes := [], running := True\<rparr>
     in if logging_fails env then (Some (OtherException ''cannot open log file''), w1)
        else (None, logger_info Log_file_created w1))"

subsection \<open>Cleanup\<close>

text \<open>
  The \<^verbatim>\<open>try\<close> statement of lines 112-119, entered for a handle that is alive. Every
  exception raised inside it (by \<^verbatim>\<open>terminate\<close>, by the liveness test of line 115, by
  \<^verbatim>\<open>kill\<close>) is caught by the \<^verbatim>\<open>except Exception\<close> of line 118, which logs it. A process
  that does not fail to be killed has exited when \<^verbatim>\<open>p.join()\<close> returns.
\<close>

definition terminate_process :: "env \<Rightarrow> pid \<Rightarrow> tester \<Rightarrow> tester" where
  "terminate_process env p w =
    (if terminate_fails env p then logger_error Error_cleaning_up (emit (Terminate p) w)
     else
       (let w1 = emit (Terminate p) w;
            w2 = emit (Join p (Some 2)) (if exits_on_terminate env p then exited p w1 else w1)
        in if is_alive_fails env p then logger_error Error_cleaning_up w2
           else if alive w2 p then
             (if kill_fails env p then logger_error Error_cleaning_up (emit (Kill p) w2)
              else emit (Join p None) (exited p (emit (Kill p) w2)))
           else w2))"

text \<open>
  The body of the \<^verbatim>\<open>for p in all_processes\<close> loop of \<^verbatim>\<open>cleanup_processes\<close>
  (lines 111-119). The liveness test \<^verbatim>\<open>if p.is_alive()\<close> of line 111 stands outside the
  \<^verbatim>\<open>try\<close>: when it raises, the exception leaves the loop.
\<close>

definition cleanup_process :: "env \<Rightarrow> pid \<Rightarrow> tester \<Rightarrow> exn option \<times> tester" where
  "cleanup_process env p w =
    (if is_alive_fails env p then (Some (OtherException ''can only test a child process''), w)
     else if alive w p then (None, terminate_process env p w)
     else (None, w))"

text \<open>The loop of lines 110-119: an exception ends it.\<close>

fun cleanup_loop :: "env \<Rightarrow> pid list \<Rightarrow> tester \<Rightarrow> exn option \<times> tester" where
  "cleanup_loop env [] w = (None, w)"
| "cleanup_loop env (p # ps) w =
    (case cleanup_process env p w of
       (Some e, w1) \<Rightarrow> (Some e, w1)
     | (None, w1) \<Rightarrow> cleanup_loop env ps w1)"

text \<open>
  \<^verbatim>\<open>cleanup_processes\<close> (lines 106-123): the lists are cleared and the final line is
  logged when the loop has ended without an exception; otherwise the exception leaves
  the function before lines 121-123.
\<close>

definition cleanup_processes :: "env \<Rightarrow> tester \<Rightarrow> exn option \<times> tester" where
  "cleanup_processes env w =
    (let all_processes = processes w @ memory_processes w
     in case cleanup_loop env all_processes w of
          (Some e, w1) \<Rightarrow> (Some e, w1)
        | (None, w1) \<Rightarrow>
            (None, logger_info All_processes_cleaned_up
                     (w1\<lparr>processes := [], memory_processes := []\<rparr>)))"

text \<open>
  \<^verbatim>\<open>signal_handler\<close> (lines 98-104); \<^verbatim>\<open>sys.exit(0)\<close> raises \<open>SystemExit\<close>, unless the
  cleanup before it has raised.
\<close>

definition signal_handler :: "env \<Rightarrow> tester \<Rightarrow> exn option \<times> tester" where
  "signal_handler env w =
    (let w1 = logger_info Initiating_shutdown (print Interrupt_received w);
         w2 = w1\<lparr>running := False\<rparr>
     in case cleanup_processes env w2 of
          (Some e, w3) \<Rightarrow> (Some e, w3)
        | (None, w3) \<Rightarrow> (Some (SystemExit 0), w3))"

subsection \<open>Spawning\<close>

text \<open>
  The \<^verbatim>\<open>for _ in range(cores)\<close> loop of \<^verbatim>\<open>stress_cpu\<close> (lines 209-212): the handle is
  appended only after \<^verbatim>\<open>p.start()\<close> has returned.
\<close>

fun stress_cpu_loop :: "env \<Rightarrow> nat \<Rightarrow> int \<Rightarrow> tester \<Rightarrow> exn option \<times> tester" where
  "stress_cpu_loop env 0 intensity w = (None, w)"
| "stress_cpu_loop env (Suc n) intensity w =
    (let p = started w; w1 = w\<lparr>started := Suc p\<rparr>
     in if start_fails env p then (Some (OtherException ''Process.start failed''), w1)
        else stress_cpu_loop env n intensity
          (emit (Start p (cpu_burn intensity))
            (w1\<lparr>alive := (alive w1)(p := True),
                target := (target w1)(p \<mapsto> cpu_burn intensity)\<rparr>)
            \<lparr>processes := processes w1 @ [p]\<rparr>))"

text \<open>\<^verbatim>\<open>stress_cpu\<close> (lines 206-218); the parameter \<open>duration\<close> is the source's.\<close>

definition stress_cpu :: "env \<Rightarrow> int \<Rightarrow> int \<Rightarrow> int \<Rightarrow> tester \<Rightarrow> exn option \<times> tester" where
  "stress_cpu env cores duration intensity w =
    (case stress_cpu_loop env (nat cores) intensity w of
       (None, w1) \<Rightarrow> (None, logger_info (Started_cpu cores intensity) w1)
     | (Some e, w1) \<Rightarrow>
         if is_Exception e then (Some e, logger_error (Error_starting_cpu e) w1)
         else (Some e, w1))"

text \<open>\<^verbatim>\<open>stress_memory\<close> (lines 220-232), in the same way.\<close>

fun stress_memory_loop :: "env \<Rightarrow> nat \<Rightarrow> int \<Rightarrow> tester \<Rightarrow> exn option \<times> tester" where
  "stress_memory_loop env 0 size_mb w = (None, w)"
| "stress_memory_loop env (Suc n) size_mb w =
    (let p = started w; w1 = w\<lparr>started := Suc p\<rparr>
     in if start_fails env p then (Some (OtherException ''Process.start failed''), w1)
        else stress_memory_loop env n size_mb
          (emit (Start p (memory_burn_target size_mb))
            (w1\<lparr>alive := (alive w1)(p := True),
                target := (target w1)(p \<mapsto> memory_burn_target size_mb)\<rparr>)
            \<lparr>memory_processes := memory_processes w1 @ [p]\<rparr>))"

definition stress_memory :: "env \<Rightarrow> int \<Rightarrow> int \<Rightarrow> tester \<Rightarrow> exn option \<times> tester" where
  "stress_memory env procs size_mb w =
    (case stress_memory_loop env (nat procs) size_mb w of
       (None, w1) \<Rightarrow> (None, logger_info (Started_memory procs size_mb) w1)
     | (Some e, w1) \<Rightarrow>
         if is_Exception e then (Some e, logger_error (Error_starting_memory e) w1)
         else (Some e, w1))"

subsection \<open>The polling loops\<close>

text \<open>
  One tick of a polling loop takes at least the second it sleeps (\<^verbatim>\<open>time.sleep(1)\<close> in
  the dashboard loop, \<^verbatim>\<open>psutil.cpu_percent(interval=1)\<close> in the legacy loop).
\<close>

definition advance :: "env \<Rightarrow> tester \<Rightarrow> tester" where
  "advance env w = w\<lparr>now := now w + 1000 + jitter env (ticks w), ticks := Suc (ticks w)\<rparr>"

text \<open>
  \<^verbatim>\<open>display_dashboard\<close> (lines 145-204): an exception of the polls or of the rendering is
  caught inside, printed and logged; otherwise one frame with the per-core bars and the
  memory bar is printed and one line is logged.
\<close>

definition display_dashboard :: "env \<Rightarrow> tester \<Rightarrow> tester" where
  "display_dashboard env w =
    (if tick env (ticks w) = Tick_poll_fails
     then logger_error Dashboard_error (print Dashboard_error w)
     else logger_info Dashboard_metrics
       (print (Dashboard (map bar (cpu_per_core env (ticks w)))
                 (bar (memory_percent env (ticks w)))) w))"

text \<open>
  The monitoring loop of \<^verbatim>\<open>run_stress_test\<close> (lines 255-257). \<open>start_time\<close> is in
  milliseconds, \<open>duration\<close> in seconds. A signal runs the installed handler, whose
  \<open>SystemExit\<close> leaves the loop.
\<close>

function monitor_loop :: "env \<Rightarrow> nat \<Rightarrow> int \<Rightarrow> tester \<Rightarrow> exn option \<times> tester" where
  "monitor_loop env start_time duration w =
    (if running w \<and> int (now w) - int start_time < duration * 1000 then
       (case tick env (ticks w) of
          Tick_raise e \<Rightarrow> (Some e, w)
        | Tick_signal \<Rightarrow> signal_handler env w
        | _ \<Rightarrow> monitor_loop env start_time duration (advance env (display_dashboard env w)))
     else (None, w))"
  by pat_completeness auto
termination
  by (relation "measure (\<lambda>(env, start_time, duration, w).
        nat (int start_time + duration * 1000 - int (now w)))")
     (auto simp: advance_def display_dashboard_def emit_def)

text \<open>\<^verbatim>\<open>run_stress_test\<close>: the \<^verbatim>\<open>try\<close> block (lines 237-261).\<close>

definition run_stress_test_try ::
  "env \<Rightarrow> int \<Rightarrow> int \<Rightarrow> int \<Rightarrow> int \<Rightarrow> int \<Rightarrow> tester \<Rightarrow> exn option \<times> tester" where
  "run_stress_test_try env cpu_cores duration intensity mem_procs memory_size w =
    (if sys_info_fails env then (Some (OtherException ''psutil error''), w)
     else
       (let w1 = logger_info (Starting_stress_test cpu_cores duration intensity)
                   (print System_info w)
        in case stress_cpu env cpu_cores duration intensity w1 of
             (Some e, w2) \<Rightarrow> (Some e, w2)
           | (None, w2) \<Rightarrow>
               (case (if mem_procs > 0 then stress_memory env mem_procs memory_size w2
                      else (None, w2)) of
                  (Some e, w3) \<Rightarrow> (Some e, w3)
                | (None, w3) \<Rightarrow>
                    (case monitor_loop env (now w3) duration w3 of
                       (Some e, w4) \<Rightarrow> (Some e, w4)
                     | (None, w4) \<Rightarrow>
                         (None,
                          if running w4
                          then logger_info Completed_successfully (print Completed_successfully w4)
                          else w4)))))"

text \<open>
  The handlers of \<^verbatim>\<open>run_stress_test\<close> (lines 263-268), applied to the outcome of the
  \<^verbatim>\<open>try\<close> block: a \<open>KeyboardInterrupt\<close> and an \<open>Exception\<close> are caught, printed and logged;
  any other exception stays pending.
\<close>

definition run_stress_test_except :: "exn option \<times> tester \<Rightarrow> exn option \<times> tester" where
  "run_stress_test_except outcome =
    (case outcome of
       (None, w1) \<Rightarrow> (None, w1)
     | (Some e, w1) \<Rightarrow>
         if e = KeyboardInterrupt then
           (None, logger_info Interrupted_by_user (print Interrupted_by_user w1))
         else if is_Exception e then
           (None, logger_error (Error_during_stress_test e)
                    (print (Error_during_stress_test e) w1))
         else (Some e, w1))"

text \<open>
  \<^verbatim>\<open>run_stress_test\<close> (lines 234-270): the \<^verbatim>\<open>try\<close> block, the handlers, and the
  \<^verbatim>\<open>finally\<close> of lines 269-270. A pending exception leaves the function after the
  \<^verbatim>\<open>finally\<close> block; an exception raised by the cleanup itself replaces it.
\<close>

definition run_stress_test ::
  "env \<Rightarrow> int \<Rightarrow> int \<Rightarrow> int \<Rightarrow> int \<Rightarrow> int \<Rightarrow> tester \<Rightarrow> exn option \<times> tester" where
  "run_stress_test env cpu_cores duration intensity mem_procs memory_size w =
    (case run_stress_test_except
            (run_stress_test_try env cpu_cores duration intensity mem_procs memory_size w) of
       (pending, w2) \<Rightarrow>
         (case cleanup_processes env w2 of
            (Some e, w3) \<Rightarrow> (Some e, w3)
          | (None, w3) \<Rightarrow> (pending, w3)))"

subsection \<open>The main program\<close>

text \<open>
  The polling loop of the legacy mode (lines 319-325): nothing in it catches the
  exception of a failing \<^verbatim>\<open>psutil.cpu_percent\<close>.
\<close>

function legacy_loop :: "env \<Rightarrow> nat \<Rightarrow> int \<Rightarrow> tester \<Rightarrow> exn option \<times> tester" where
  "legacy_loop env start_time duration w =
    (if running w \<and> int (now w) - int start_time < duration * 1000 then
       (case tick env (ticks w) of
          Tick_raise e \<Rightarrow> (Some e, w)
        | Tick_poll_fails \<Rightarrow> (Some (OtherException ''psutil error''), w)
        | Tick_signal \<Rightarrow> signal_handler env w
        | Tick_ok \<Rightarrow> legacy_loop env start_time duration (advance env (print Cpu_usage w)))
     else (None, w))"
  by pat_completeness auto
termination
  by (relation "measure (\<lambda>(env, start_time, duration, w).
        nat (int start_time + duration * 1000 - int (now w)))")
     (auto simp: advance_def emit_def)

text \<open>The branch \<^verbatim>\<open>if args.cpu_only\<close> (lines 312-328).\<close>

definition legacy_mode :: "env \<Rightarrow> args \<Rightarrow> tester \<Rightarrow> exn option \<times> tester" where
  "legacy_mode env a w =
    (case CPUStressTester env
            (print (Legacy_mode (args_cores a) (args_time a) (args_intensity a)) w) of
       (Some e, w1) \<Rightarrow> (Some e, w1)
     | (None, w1) \<Rightarrow>
         (case stress_cpu env (args_cores a) (args_time a) (args_intensity a) w1 of
            (Some e, w2) \<Rightarrow> (Some e, w2)
          | (None, w2) \<Rightarrow>
              (case legacy_loop env (now w2) (args_time a) w2 of
                 (Some e, w3) \<Rightarrow> (Some e, w3)
               | (None, w3) \<Rightarrow>
                   (case cleanup_processes env w3 of
                      (Some e, w4) \<Rightarrow> (Some e, w4)
                    | (None, w4) \<Rightarrow> (None, print Legacy_finished w4)))))"

text \<open>The branch \<^verbatim>\<open>else\<close> (lines 329-349).\<close>

definition advanced_mode :: "env \<Rightarrow> args \<Rightarrow> tester \<Rightarrow> exn option \<times> tester" where
  "advanced_mode env a w =
    (case CPUStressTester env w of
       (Some e, w1) \<Rightarrow> (Some e, w1)
     | (None, w1) \<Rightarrow>
         run_stress_test env (args_cores a) (args_time a) (args_intensity a)
           (args_memory_processes a) (args_memory_size a)
           (print (Configuration (args_cores a) (args_time a) (args_intensity a)
                     (args_memory_processes a) (args_memory_size a)) w1))"

text \<open>The \<^verbatim>\<open>try\<close> block of the main program (lines 309-349), after argument parsing.\<close>

definition main_try :: "env \<Rightarrow> args \<Rightarrow> tester \<Rightarrow> exn option \<times> tester" where
  "main_try env a w =
    (case validate_args (cpu_count env) a of
       Inl e \<Rightarrow> (Some e, w)
     | Inr warnings \<Rightarrow>
         (let w0 = fold (\<lambda>x. print (Warning x)) warnings w
          in if args_cpu_only a then legacy_mode env a w0 else advanced_mode env a w0))"

text \<open>
  The main program with its handlers (lines 351-359): the exit code of the process and
  the final state. A \<open>SystemExit\<close> is caught by none of the handlers and exits with its
  own code; without an exception the interpreter exits with code 0.
\<close>

definition main :: "env \<Rightarrow> args \<Rightarrow> tester \<Rightarrow> int \<times> tester" where
  "main env a w =
    (case main_try env a w of
       (None, w1) \<Rightarrow> (0, w1)
     | (Some (ValueError m), w1) \<Rightarrow> (1, print (Invalid_argument m) w1)
     | (Some KeyboardInterrupt, w1) \<Rightarrow> (0, print Main_interrupted w1)
     | (Some (SystemExit c), w1) \<Rightarrow> (c, w1)
     | (Some (OtherException m), w1) \<Rightarrow> (1, print (Unexpected_error m) w1))"

text \<open>The world before the program starts: no process, an empty trace.\<close>

definition boot :: tester where
  "boot = \<lparr>processes = [], memory_processes = [], running = False, alive = (\<lambda>_. False),
           target = (\<lambda>_. None), started = 0, now = 0, ticks = 0, trace = []\<rparr>"

subsection \<open>Observations on traces\<close>

text \<open>The events that are calls on the handle \<open>p\<close>.\<close>

fun about :: "pid \<Rightarrow> event \<Rightarrow> bool" where
  "about p (Start q _) = (p = q)"
| "about p (Terminate q) = (p = q)"
| "about p (Join q _) = (p = q)"
| "about p (Kill q) = (p = q)"
| "about p (Log _ _) = False"
| "about p (Print _) = False"

definition events_of :: "pid \<Rightarrow> event list \<Rightarrow> event list" where
  "events_of p t = filter (about p) t"

text \<open>The handles that received \<^verbatim>\<open>terminate\<close>, in order.\<close>

fun terminated :: "event list \<Rightarrow> pid list" where
  "terminated [] = []"
| "terminated (Terminate p # t) = p # terminated t"
| "terminated (_ # t) = terminated t"

text \<open>
  How often \<^verbatim>\<open>cleanup_processes\<close> ran to its end: it is the only function that logs
  \<open>All_processes_cleaned_up\<close> (line 123).
\<close>

definition cleanups :: "event list \<Rightarrow> nat" where
  "cleanups t = length (filter (\<lambda>e. e = Log INFO All_processes_cleaned_up) t)"


text \<open>
  A host on which nothing goes wrong: every start succeeds, the program runs in the
  process that started its workers, every process exits on \<^verbatim>\<open>terminate\<close>, no tick
  raises, no signal arrives.
\<close>

definition quiet_host :: env where
  "quiet_host = \<lparr>cpu_count = 4, logging_fails = False, sys_info_fails = False,
     start_fails = (\<lambda>_. False), is_alive_fails = (\<lambda>_. False),
     terminate_fails = (\<lambda>_. False),
     exits_on_terminate = (\<lambda>_. True), kill_fails = (\<lambda>_. False),
     tick = (\<lambda>_. Tick_ok), jitter = (\<lambda>_. 0),
     cpu_per_core = (\<lambda>_. [45, 100]), memory_percent = (\<lambda>_. 0)\<rparr>"

text \<open>
  Chunks are appended in the order of their allocation: the list \<^verbatim>\<open>data\<close> is sorted by
  serial number, oldest first.
\<close>

definition in_order :: "burn_state \<Rightarrow> bool" where
  "in_order s = (sorted_wrt (<) (data s) \<and> list_all (\<lambda>x. x < allocated s) (data s))"

text \<open>
  A tester with four tracked handles, the second of which has exited already, on a host
  where \<^verbatim>\<open>terminate\<close> raises for handle 0 and the process of handle 2 ignores it.
\<close>

definition four_workers :: tester where
  "four_workers = boot\<lparr>processes := [0, 1], memory_processes := [2, 3],
     running := True, alive := (\<lambda>p. p \<noteq> 1 \<and> p < 4), started := 4\<rparr>"

definition stubborn_host :: env where
  "stubborn_host = quiet_host\<lparr>terminate_fails := (\<lambda>p. p = 0),
     exits_on_terminate := (\<lambda>p. p \<noteq> 2)\<rparr>"

text \<open>
  All tracked handles, in the order in which \<^verbatim>\<open>cleanup_processes\<close> visits them. Handles
  are created by the tester only, each with a number of its own: the tracked handles are
  distinct and were started before.
\<close>

definition tracked :: "tester \<Rightarrow> pid list" where
  "tracked w = processes w @ memory_processes w"

definition fresh_pids :: "tester \<Rightarrow> bool" where
  "fresh_pids w = (distinct (tracked w) \<and> list_all (\<lambda>p. p < started w) (tracked w))"

text \<open>A host on which the third call of \<^verbatim>\<open>Process.start\<close> fails.\<close>

definition third_start_fails :: env where
  "third_start_fails = quiet_host\<lparr>start_fails := (\<lambda>n. n = 2)\<rparr>"

text \<open>
  Valid arguments for the dashboard mode and for the legacy mode, a host on which the
  poll of the second tick raises, and a host on which no process can be started.
\<close>

definition advanced_args :: args where
  "advanced_args = \<lparr>args_cores = 2, args_time = 3, args_intensity = 1,
     args_memory_processes = 0, args_memory_size = 100, args_cpu_only = False\<rparr>"

definition legacy_args :: args where
  "legacy_args = advanced_args\<lparr>args_cpu_only := True\<rparr>"

definition second_poll_fails :: env where
  "second_poll_fails = quiet_host\<lparr>tick := (\<lambda>k. if k = 1 then Tick_poll_fails else Tick_ok)\<rparr>"

definition no_start :: env where
  "no_start = quiet_host\<lparr>start_fails := (\<lambda>_. True)\<rparr>"

text \<open>
  The state of the legacy mode on that host after its two workers have been started,
  when the polling loop begins.
\<close>

definition legacy_spawned :: tester where
  "legacy_spawned = boot\<lparr>processes := [0, 1], running := True,
      alive := (\<lambda>p. p = 0 \<or> p = 1),
      target := (\<lambda>p. if p = 0 \<or> p = 1 then Some (cpu_burn 1) else None),
      started := 2,
      trace := [Print (Legacy_mode 2 3 1), Log INFO Log_file_created,
        Start 0 (cpu_burn 1), Start 1 (cpu_burn 1), Log INFO (Started_cpu 2 1)]\<rparr>"

text \<open>
  What one pass of the cleanup loop does to the state when the liveness test of its
  handle does not raise.
\<close>

definition cleanup_step :: "env \<Rightarrow> pid \<Rightarrow> tester \<Rightarrow> tester" where
  "cleanup_step env p w = (if alive w p then terminate_process env p w else w)"

text \<open>
  The second CPU worker after the fork: its copy of the tester tracks the handle of the
  first worker, which is a child of the parent, not of this process, so that
  \<^verbatim>\<open>is_alive\<close> raises there; the signal handler installed by the parent is inherited.
\<close>

definition inherited_tester :: tester where
  "inherited_tester = boot\<lparr>processes := [0], running := True,
     alive := (\<lambda>p. p = 0), target := (\<lambda>p. if p = 0 then Some (cpu_burn 1) else None),
     started := 1\<rparr>"

definition forked_worker :: env where
  "forked_worker = quiet_host\<lparr>is_alive_fails := (\<lambda>_. True)\<rparr>"

section \<open>Argument validation\<close>

text \<open>
  Claim C5. \<^verbatim>\<open>validate_args\<close> raises a \<open>ValueError\<close> exactly when \<open>cores \<le> 0\<close>, or
  \<open>time \<le> 0\<close>, or \<open>intensity \<le> 0\<close>, or \<open>memory_processes < 0\<close>, or \<open>memory_size \<le> 0\<close>, and it
  raises nothing else. In particular it rejects \<open>cores = 0\<close>, \<open>time = -1\<close>,
  \<open>intensity = 0\<close>, \<open>memory_processes = -1\<close> and \<open>memory_size = 0\<close> (whatever the other
  arguments are), and accepts \<open>cores = 1\<close>, \<open>time = 1\<close>, \<open>intensity = 1\<close>,
  \<open>memory_processes = 0\<close>, \<open>memory_size = 1\<close>.
\<close>

theorem validate_args_rejects_exactly:
  "(\<exists>msg. validate_args n a = Inl (ValueError msg)) =
     (args_cores a \<le> 0 \<or> args_time a \<le> 0 \<or> args_intensity a \<le> 0 \<or>
      args_memory_processes a < 0 \<or> args_memory_size a \<le> 0)
   \<and> isl (validate_args n a) = (\<exists>msg. validate_args n a = Inl (ValueError msg))
   \<and> isl (validate_args n (a\<lparr>args_cores := 0\<rparr>))
   \<and> isl (validate_args n (a\<lparr>args_time := - 1\<rparr>))
   \<and> isl (validate_args n (a\<lparr>args_intensity := 0\<rparr>))
   \<and> isl (validate_args n (a\<lparr>args_memory_processes := - 1\<rparr>))
   \<and> isl (validate_args n (a\<lparr>args_memory_size := 0\<rparr>))
   \<and> validate_args n \<lparr>args_cores = 0, args_time = 1, args_intensity = 1,
        args_memory_processes = 0, args_memory_size = 1, args_cpu_only = b\<rparr> =
      Inl (ValueError ''Number of cores must be positive'')
   \<and> validate_args n \<lparr>args_cores = 1, args_time = - 1, args_intensity = 1,
        args_memory_processes = 0, args_memory_size = 1, args_cpu_only = b\<rparr> =
      Inl (ValueError ''Duration must be positive'')
   \<and> validate_args n \<lparr>args_cores = 1, args_time = 1, args_intensity = 0,
        args_memory_processes = 0, args_memory_size = 1, args_cpu_only = b\<rparr> =
      Inl (ValueError ''Intensity must be positive'')
   \<and> validate_args n \<lparr>args_cores = 1, args_time = 1, args_intensity = 1,
        args_memory_processes = - 1, args_memory_size = 1, args_cpu_only = b\<rparr> =
      Inl (ValueError ''Memory processes cannot be negative'')
   \<and> validate_args n \<lparr>args_cores = 1, args_time = 1, args_intensity = 1,
        args_memory_processes = 0, args_memory_size = 0, args_cpu_only = b\<rparr> =
      Inl (ValueError ''Memory size must be positive'')
   \<and> validate_args n \<lparr>args_cores = 1, args_time = 1, args_intensity = 1,
        args_memory_processes = 0, args_memory_size = 1, args_cpu_only = b\<rparr> =
      Inr (if 1 > n then [Warn_cores 1 n] else [])"
  by (simp add: validate_args_def)

section \<open>The dashboard bar\<close>

text \<open>
  Claim C7. For every usage percentage (a value from 0 to 100) the bar is
  \<open>\<lfloor>usage / 5\<rfloor>\<close> filled segments followed by empty ones, 20 segments in all, and the
  number of filled segments lies between 0 and 20. For \<open>usage = 0\<close> the bar is all
  empty, for \<open>usage = 100\<close> all 20 segments are filled, and for \<open>usage = 45\<close> exactly 9
  are.
\<close>

theorem bar_segments:
  assumes "0 \<le> usage" and "usage \<le> 100"
  shows "bar usage =
           replicate (nat \<lfloor>usage / 5\<rfloor>) Filled @ replicate (20 - nat \<lfloor>usage / 5\<rfloor>) Blank
         \<and> length (bar usage) = 20
         \<and> 0 \<le> \<lfloor>usage / 5\<rfloor> \<and> \<lfloor>usage / 5\<rfloor> \<le> 20
         \<and> bar 0 = replicate 20 Blank
         \<and> bar 100 = replicate 20 Filled
         \<and> bar 45 = replicate 9 Filled @ replicate 11 Blank"
proof -
  have lo: "0 \<le> \<lfloor>usage / 5\<rfloor>"
    using assms by simp
  have "usage / 5 \<le> 20"
    using assms by simp
  then have hi: "\<lfloor>usage / 5\<rfloor> \<le> 20"
    by (simp add: floor_le_iff)
  have n: "nat (20 - \<lfloor>usage / 5\<rfloor>) = 20 - nat \<lfloor>usage / 5\<rfloor>"
    using lo hi by linarith
  have shape: "bar usage =
      replicate (nat \<lfloor>usage / 5\<rfloor>) Filled @ replicate (20 - nat \<lfloor>usage / 5\<rfloor>) Blank"
    using assms by (simp add: bar_def py_int_def py_repeat_def Let_def n)
  have "nat \<lfloor>usage / 5\<rfloor> \<le> 20"
    using lo hi by linarith
  with shape have len: "length (bar usage) = 20"
    by simp
  have fixed: "bar 0 = replicate 20 Blank" "bar 100 = replicate 20 Filled"
      "bar 45 = replicate 9 Filled @ replicate 11 Blank"
    by (simp_all add: bar_def py_int_def py_repeat_def)
  from shape len lo hi fixed show ?thesis
    by blast
qed

theorem bar_segments_witness:
  "(0::real) \<le> 47.3 \<and> (47.3::real) \<le> 100
   \<and> bar 47.3 = replicate 9 Filled @ replicate 11 Blank \<and> length (bar 47.3) = 20"
  using bar_segments [of "47.3"] by simp

text \<open>
  The code itself does not clamp: outside the range of a percentage the bar has another
  length.
\<close>

lemma bar_not_clamped: "length (bar 105) = 21"
  by (simp add: bar_def py_int_def py_repeat_def)

section \<open>Bounded growth of the memory workload\<close>

lemma length_allocate: "length (data (allocate n s)) = length (data s) + n"
  by (induction n s rule: allocate.induct) simp_all

lemma memory_burn_cycle_bound:
  assumes "0 < size_mb" and "int (length (data s)) \<le> 2 * size_mb"
  shows "int (length (data (memory_burn_cycle size_mb s))) \<le> 2 * size_mb"
  using assms
  by (auto simp: memory_burn_cycle_def discard_def py_slice_from_def length_allocate)

lemma memory_burn_bound:
  assumes "0 < size_mb" and "int (length (data s)) \<le> 2 * size_mb"
  shows "int (length (data (memory_burn n size_mb s))) \<le> 2 * size_mb"
  using assms
  by (induction n size_mb s rule: memory_burn.induct) (simp_all add: memory_burn_cycle_bound)

lemma allocate_data:
  "data (allocate n s) = data s @ [allocated s ..< allocated s + n]"
  "allocated (allocate n s) = allocated s + n"
  by (induction n s rule: allocate.induct) (simp_all add: upt_rec)

lemma in_order_allocate: "in_order s \<Longrightarrow> in_order (allocate n s)"
  by (auto simp: in_order_def allocate_data sorted_wrt_append list_all_iff)

lemma in_order_discard: "in_order s \<Longrightarrow> in_order (discard size_mb s)"
  by (auto simp: in_order_def discard_def py_slice_from_def sorted_wrt_drop list_all_iff
      dest: in_set_dropD)

lemma in_order_memory_burn: "in_order s \<Longrightarrow> in_order (memory_burn n size_mb s)"
  by (induction n size_mb s rule: memory_burn.induct)
     (simp_all add: memory_burn_cycle_def in_order_allocate in_order_discard)

lemma in_order_start: "in_order burn_start"
  by (simp add: in_order_def burn_start_def)

lemma memory_burn_cycle_data:
  assumes "0 < size_mb"
  shows "data (memory_burn_cycle size_mb s) =
    (if int (length (data (allocate (nat size_mb) s))) > 2 * size_mb
     then drop (nat size_mb) (data (allocate (nat size_mb) s))
     else data (allocate (nat size_mb) s))"
  using assms by (simp add: memory_burn_cycle_def discard_def py_slice_from_def)

lemma memory_burn_Suc:
  "memory_burn (Suc n) size_mb s = memory_burn_cycle size_mb (memory_burn n size_mb s)"
  by (induction n size_mb s rule: memory_burn.induct) simp_all

text \<open>
  Claim C6. For every \<open>size_mb > 0\<close> the number of chunks that \<^verbatim>\<open>memory_burn\<close> retains
  from one cycle to the next never exceeds \<open>2 * size_mb\<close>, after any number \<open>n\<close> of
  cycles: the state after cycle \<open>n + 1\<close> is the state after the allocation of that cycle
  without its first \<open>size_mb\<close> chunks whenever the allocation has brought the count above
  \<open>2 * size_mb\<close>, and these first chunks are the oldest ones, the list being sorted by
  allocation order.
\<close>

theorem memory_burn_bounded:
  assumes "0 < size_mb"
  shows "int (length (data (memory_burn n size_mb burn_start))) \<le> 2 * size_mb
    \<and> data (memory_burn (Suc n) size_mb burn_start) =
        (if int (length (data (allocate (nat size_mb) (memory_burn n size_mb burn_start))))
              > 2 * size_mb
         then drop (nat size_mb) (data (allocate (nat size_mb) (memory_burn n size_mb burn_start)))
         else data (allocate (nat size_mb) (memory_burn n size_mb burn_start)))
    \<and> sorted_wrt (<) (data (allocate (nat size_mb) (memory_burn n size_mb burn_start)))"
proof -
  have 1: "int (length (data (memory_burn n size_mb burn_start))) \<le> 2 * size_mb"
    using assms by (intro memory_burn_bound) (simp_all add: burn_start_def)
  have 2: "data (memory_burn (Suc n) size_mb burn_start) =
        (if int (length (data (allocate (nat size_mb) (memory_burn n size_mb burn_start))))
              > 2 * size_mb
         then drop (nat size_mb) (data (allocate (nat size_mb) (memory_burn n size_mb burn_start)))
         else data (allocate (nat size_mb) (memory_burn n size_mb burn_start)))"
    unfolding memory_burn_Suc by (rule memory_burn_cycle_data [OF assms])
  have "in_order (allocate (nat size_mb) (memory_burn n size_mb burn_start))"
    by (intro in_order_allocate in_order_memory_burn in_order_start)
  then have 3: "sorted_wrt (<) (data (allocate (nat size_mb) (memory_burn n size_mb burn_start)))"
    by (simp add: in_order_def)
  from 1 2 3 show ?thesis by blast
qed

lemma memory_burn_example: "data (memory_burn 5 2 burn_start) = [6, 7, 8, 9]"
  by (simp add: eval_nat_numeral memory_burn_cycle_def discard_def py_slice_from_def
      burn_start_def)

theorem memory_burn_bounded_witness:
  "(0::int) < 2 \<and> int (length (data (memory_burn 5 2 burn_start))) \<le> 2 * 2
   \<and> data (memory_burn 5 2 burn_start) = [6, 7, 8, 9]"
  using memory_burn_bounded [of 2 5] memory_burn_example by simp

text \<open>
  Inside a cycle, between the allocation and the discard, the list is longer: from the
  third cycle on it holds \<open>3 * size_mb\<close> chunks there.
\<close>

lemma memory_burn_peak: "length (data (allocate 2 (memory_burn 2 2 burn_start))) = 6"
  by (simp add: eval_nat_numeral memory_burn_cycle_def discard_def py_slice_from_def
      burn_start_def)

section \<open>Spawning does not depend on the duration\<close>

text \<open>
  Claim C10. \<^verbatim>\<open>stress_cpu\<close> does not depend on its \<open>duration\<close> argument: for two durations
  and the same cores and intensity, the same processes are started with the same
  workload and argument, the same exception (if any) is raised and the same state and
  trace result.
\<close>

theorem stress_cpu_independent_of_duration:
  "stress_cpu env cores duration1 intensity w = stress_cpu env cores duration2 intensity w"
  by (simp add: stress_cpu_def)

section \<open>Cleanup\<close>

lemma emit_simps [simp]:
  "trace (emit e w) = trace w @ [e]"
  "processes (emit e w) = processes w"
  "memory_processes (emit e w) = memory_processes w"
  "running (emit e w) = running w"
  "alive (emit e w) = alive w"
  "target (emit e w) = target w"
  "started (emit e w) = started w"
  "now (emit e w) = now w"
  "ticks (emit e w) = ticks w"
  by (simp_all add: emit_def)

lemma exited_simps [simp]:
  "trace (exited p w) = trace w"
  "processes (exited p w) = processes w"
  "memory_processes (exited p w) = memory_processes w"
  "running (exited p w) = running w"
  "alive (exited p w) = (alive w)(p := False)"
  "target (exited p w) = target w"
  "started (exited p w) = started w"
  "now (exited p w) = now w"
  "ticks (exited p w) = ticks w"
  by (simp_all add: exited_def)

lemma events_of_append [simp]: "events_of p (s @ t) = events_of p s @ events_of p t"
  by (simp add: events_of_def)

lemma events_of_Nil [simp]: "events_of p [] = []"
  by (simp add: events_of_def)

lemma events_of_Cons [simp]:
  "events_of p (e # t) = (if about p e then e # events_of p t else events_of p t)"
  by (simp add: events_of_def)

lemma cleanup_step_fields [simp]:
  "processes (cleanup_step env q w) = processes w"
  "memory_processes (cleanup_step env q w) = memory_processes w"
  "running (cleanup_step env q w) = running w"
  "target (cleanup_step env q w) = target w"
  "started (cleanup_step env q w) = started w"
  "now (cleanup_step env q w) = now w"
  "ticks (cleanup_step env q w) = ticks w"
  by (simp_all add: cleanup_step_def terminate_process_def Let_def)

lemma fold_cleanup_fields [simp]:
  "processes (fold (cleanup_step env) qs w) = processes w"
  "memory_processes (fold (cleanup_step env) qs w) = memory_processes w"
  "running (fold (cleanup_step env) qs w) = running w"
  "target (fold (cleanup_step env) qs w) = target w"
  "started (fold (cleanup_step env) qs w) = started w"
  "now (fold (cleanup_step env) qs w) = now w"
  "ticks (fold (cleanup_step env) qs w) = ticks w"
  by (induction qs arbitrary: w; simp)+

text \<open>The two outcomes of one pass of the loop.\<close>

lemma cleanup_process_ok:
  "\<not> is_alive_fails env p \<Longrightarrow> cleanup_process env p w = (None, cleanup_step env p w)"
  by (simp add: cleanup_process_def cleanup_step_def)

lemma cleanup_process_raises:
  "is_alive_fails env p \<Longrightarrow>
     cleanup_process env p w = (Some (OtherException ''can only test a child process''), w)"
  by (simp add: cleanup_process_def)

lemma cleanup_loop_ok:
  "list_all (\<lambda>q. \<not> is_alive_fails env q) qs \<Longrightarrow>
     cleanup_loop env qs w = (None, fold (cleanup_step env) qs w)"
  by (induction qs arbitrary: w) (simp_all add: cleanup_process_ok)

lemma cleanup_loop_raises:
  "\<not> list_all (\<lambda>q. \<not> is_alive_fails env q) qs \<Longrightarrow>
     fst (cleanup_loop env qs w) = Some (OtherException ''can only test a child process'')"
proof (induction qs arbitrary: w)
  case Nil
  then show ?case by simp
next
  case (Cons q qs)
  show ?case
  proof (cases "is_alive_fails env q")
    case True
    then show ?thesis by (simp add: cleanup_process_raises)
  next
    case False
    with Cons show ?thesis by (simp add: cleanup_process_ok)
  qed
qed

lemma cleanup_loop_frame:
  "processes (snd (cleanup_loop env qs w)) = processes w
   \<and> memory_processes (snd (cleanup_loop env qs w)) = memory_processes w
   \<and> running (snd (cleanup_loop env qs w)) = running w
   \<and> target (snd (cleanup_loop env qs w)) = target w
   \<and> started (snd (cleanup_loop env qs w)) = started w
   \<and> now (snd (cleanup_loop env qs w)) = now w
   \<and> ticks (snd (cleanup_loop env qs w)) = ticks w"
proof (induction qs arbitrary: w)
  case Nil
  show ?case by simp
next
  case (Cons q qs)
  show ?case
  proof (cases "is_alive_fails env q")
    case True
    then show ?thesis by (simp add: cleanup_process_raises)
  next
    case False
    then show ?thesis by (simp add: cleanup_process_ok Cons)
  qed
qed

lemma cleanup_loop_fields [simp]:
  "processes (snd (cleanup_loop env qs w)) = processes w"
  "memory_processes (snd (cleanup_loop env qs w)) = memory_processes w"
  "running (snd (cleanup_loop env qs w)) = running w"
  "target (snd (cleanup_loop env qs w)) = target w"
  "started (snd (cleanup_loop env qs w)) = started w"
  "now (snd (cleanup_loop env qs w)) = now w"
  "ticks (snd (cleanup_loop env qs w)) = ticks w"
  using cleanup_loop_frame [of env qs w] by simp_all

lemma cleanup_processes_ok:
  assumes "list_all (\<lambda>q. \<not> is_alive_fails env q) (processes w @ memory_processes w)"
  shows "cleanup_processes env w =
    (None, logger_info All_processes_cleaned_up
       ((fold (cleanup_step env) (processes w @ memory_processes w) w)
          \<lparr>processes := [], memory_processes := []\<rparr>))"
  by (simp only: cleanup_processes_def Let_def cleanup_loop_ok [OF assms]) simp

lemma cleanup_processes_raises:
  assumes "\<not> list_all (\<lambda>q. \<not> is_alive_fails env q) (processes w @ memory_processes w)"
  shows "fst (cleanup_processes env w) = Some (OtherException ''can only test a child process'')"
    and "processes (snd (cleanup_processes env w)) = processes w"
    and "memory_processes (snd (cleanup_processes env w)) = memory_processes w"
proof -
  obtain w1 where loop: "cleanup_loop env (processes w @ memory_processes w) w =
      (Some (OtherException ''can only test a child process''), w1)"
    using cleanup_loop_raises [OF assms, of w]
    by (cases "cleanup_loop env (processes w @ memory_processes w) w") simp
  have res: "cleanup_processes env w = (Some (OtherException ''can only test a child process''), w1)"
    by (simp only: cleanup_processes_def Let_def loop) simp
  have w1: "w1 = snd (cleanup_loop env (processes w @ memory_processes w) w)"
    by (simp add: loop)
  show "fst (cleanup_processes env w) = Some (OtherException ''can only test a child process'')"
    by (simp add: res)
  show "processes (snd (cleanup_processes env w)) = processes w"
    by (simp add: res w1)
  show "memory_processes (snd (cleanup_processes env w)) = memory_processes w"
    by (simp add: res w1)
qed

lemma cleanup_processes_fields [simp]:
  "running (snd (cleanup_processes env w)) = running w"
  "target (snd (cleanup_processes env w)) = target w"
  "started (snd (cleanup_processes env w)) = started w"
  "now (snd (cleanup_processes env w)) = now w"
  "ticks (snd (cleanup_processes env w)) = ticks w"
proof -
  obtain r w1 where loop: "cleanup_loop env (processes w @ memory_processes w) w = (r, w1)"
    by (cases "cleanup_loop env (processes w @ memory_processes w) w")
  then have w1: "w1 = snd (cleanup_loop env (processes w @ memory_processes w) w)"
    by simp
  have res: "snd (cleanup_processes env w) =
      (case r of Some e \<Rightarrow> w1
       | None \<Rightarrow> logger_info All_processes_cleaned_up
                   (w1\<lparr>processes := [], memory_processes := []\<rparr>))"
    by (simp add: cleanup_processes_def Let_def loop split: option.splits)
  show "running (snd (cleanup_processes env w)) = running w"
    "target (snd (cleanup_processes env w)) = target w"
    "started (snd (cleanup_processes env w)) = started w"
    "now (snd (cleanup_processes env w)) = now w"
    "ticks (snd (cleanup_processes env w)) = ticks w"
    by (simp_all add: res w1 split: option.splits)
qed

lemma cleanup_processes_trace:
  assumes "list_all (\<lambda>q. \<not> is_alive_fails env q) (processes w @ memory_processes w)"
  shows "trace (snd (cleanup_processes env w)) =
     trace (fold (cleanup_step env) (processes w @ memory_processes w) w) @
     [Log INFO All_processes_cleaned_up]"
  by (simp add: cleanup_processes_ok [OF assms])

lemma cleanup_step_other:
  "q \<noteq> p \<Longrightarrow> events_of p (trace (cleanup_step env q w)) = events_of p (trace w)"
  "q \<noteq> p \<Longrightarrow> alive (cleanup_step env q w) p = alive w p"
  by (simp_all add: cleanup_step_def terminate_process_def Let_def)




text \<open>
  In the process that started the workers the liveness test does not raise. There
  \<^verbatim>\<open>cleanup_processes\<close> clears both lists whatever \<^verbatim>\<open>terminate\<close> and \<^verbatim>\<open>kill\<close> do, and a
  second call in a row calls nothing on any process and only logs its final line again.
\<close>

lemma cleanup_processes_clears:
  assumes "list_all (\<lambda>q. \<not> is_alive_fails env q) (processes w @ memory_processes w)"
  shows "fst (cleanup_processes env w) = None
    \<and> processes (snd (cleanup_processes env w)) = []
    \<and> memory_processes (snd (cleanup_processes env w)) = []"
  by (simp add: cleanup_processes_ok [OF assms])

lemma clear_empty_lists:
  "processes s = [] \<Longrightarrow> memory_processes s = [] \<Longrightarrow>
     s\<lparr>processes := [], memory_processes := []\<rparr> = (s :: tester)"
  by (cases s) simp

lemma cleanup_processes_twice:
  assumes "fst (cleanup_processes env w) = None"
  shows "cleanup_processes env' (snd (cleanup_processes env w)) =
    (None, logger_info All_processes_cleaned_up (snd (cleanup_processes env w)))"
proof -
  let ?s = "snd (cleanup_processes env w)"
  have ok: "list_all (\<lambda>q. \<not> is_alive_fails env q) (processes w @ memory_processes w)"
    using assms cleanup_processes_raises(1) [of env w] by fastforce
  have e: "processes ?s = []" "memory_processes ?s = []"
    using cleanup_processes_clears [OF ok] by simp_all
  have "list_all (\<lambda>q. \<not> is_alive_fails env' q) (processes ?s @ memory_processes ?s)"
    by (simp add: e)
  from cleanup_processes_ok [OF this] show ?thesis
    by (simp add: e clear_empty_lists)
qed

text \<open>
  Claim C2 at a failing input. In a forked worker that has inherited the tester and
  the signal handler, the liveness test of line 111 raises for the inherited handle;
  the exception is outside the \<^verbatim>\<open>try\<close> of lines 112-119, so it leaves
  \<^verbatim>\<open>cleanup_processes\<close> before lines 121-122: the call raises, and the tracked list is
  not cleared, where the claim says that the lists are empty after every call. A second
  call raises again. The signal handler that called the cleanup ends with this exception
  instead of \<open>SystemExit\<close>.
\<close>

theorem cleanup_processes_in_forked_worker:
  "cleanup_processes forked_worker inherited_tester =
     (Some (OtherException ''can only test a child process''), inherited_tester)
   \<and> processes (snd (cleanup_processes forked_worker inherited_tester)) = [0]
   \<and> cleanup_processes forked_worker (snd (cleanup_processes forked_worker inherited_tester)) =
       (Some (OtherException ''can only test a child process''), inherited_tester)
   \<and> fst (signal_handler forked_worker inherited_tester) =
       Some (OtherException ''can only test a child process'')
   \<and> processes (snd (signal_handler forked_worker inherited_tester)) = [0]"
  by (simp add: cleanup_processes_def cleanup_process_def signal_handler_def Let_def
      forked_worker_def quiet_host_def inherited_tester_def boot_def)


lemma cleanup_four_workers:
  "trace (snd (cleanup_processes stubborn_host four_workers)) =
     [Terminate 0, Log ERROR Error_cleaning_up,
      Terminate 2, Join 2 (Some 2), Kill 2, Join 2 None,
      Terminate 3, Join 3 (Some 2),
      Log INFO All_processes_cleaned_up]"
  by (simp add: cleanup_processes_def cleanup_process_def terminate_process_def Let_def
      four_workers_def stubborn_host_def boot_def quiet_host_def)


section \<open>Spawn failures\<close>

lemma terminated_append [simp]: "terminated (s @ t) = terminated s @ terminated t"
  by (induction s rule: terminated.induct) simp_all

lemma terminated_map_Start [simp]: "terminated (map (\<lambda>p. Start p x) ps) = []"
  by (induction ps) simp_all

lemma terminated_cleanup_step:
  "terminated (trace (cleanup_step env q w)) =
     terminated (trace w) @ (if alive w q then [q] else [])"
  by (simp add: cleanup_step_def terminate_process_def Let_def)

lemma terminated_fold_cleanup:
  "distinct qs \<Longrightarrow>
     terminated (trace (fold (cleanup_step env) qs w)) =
       terminated (trace w) @ filter (alive w) qs"
proof (induction qs arbitrary: w)
  case Nil
  then show ?case by simp
next
  case (Cons q qs)
  have "alive (cleanup_step env q w) x = alive w x" if "x \<in> set qs" for x
  proof -
    from that Cons.prems have "q \<noteq> x" by auto
    then show ?thesis by (rule cleanup_step_other(2))
  qed
  then have "filter (alive (cleanup_step env q w)) qs = filter (alive w) qs"
    by (intro filter_cong) simp_all
  with Cons show ?case
    by (simp add: terminated_cleanup_step)
qed

lemma terminated_cleanup_processes:
  assumes "distinct (tracked w)"
    and "list_all (\<lambda>q. \<not> is_alive_fails env q) (tracked w)"
  shows "terminated (trace (snd (cleanup_processes env w))) =
       terminated (trace w) @ filter (alive w) (tracked w)"
proof -
  from assms(2) have ok: "list_all (\<lambda>q. \<not> is_alive_fails env q)
      (processes w @ memory_processes w)"
    by (simp only: tracked_def)
  from assms(1) have "distinct (processes w @ memory_processes w)"
    by (simp only: tracked_def)
  from terminated_fold_cleanup [OF this, of env w] show ?thesis
    unfolding cleanup_processes_trace [OF ok] terminated_append tracked_def
    by simp
qed

lemma stress_cpu_loop_fails:
  assumes "k < n" and "\<forall>j<k. \<not> start_fails env (started w + j)"
    and "start_fails env (started w + k)"
  shows "stress_cpu_loop env n intensity w =
    (Some (OtherException ''Process.start failed''),
     w\<lparr>processes := processes w @ [started w ..< started w + k],
       alive := (\<lambda>p. p \<in> {started w ..< started w + k} \<or> alive w p),
       target := (\<lambda>p. if p \<in> {started w ..< started w + k} then Some (cpu_burn intensity)
                       else target w p),
       started := started w + k + 1,
       trace := trace w @ map (\<lambda>p. Start p (cpu_burn intensity)) [started w ..< started w + k]\<rparr>)"
  using assms
proof (induction n arbitrary: k w)
  case 0
  then show ?case by simp
next
  case (Suc n)
  show ?case
  proof (cases k)
    case 0
    with Suc.prems show ?thesis by (simp add: Let_def)
  next
    case (Suc k')
    let ?p = "started w"
    let ?w = "(emit (Start ?p (cpu_burn intensity))
            (w\<lparr>started := Suc ?p, alive := (alive w)(?p := True),
                target := (target w)(?p \<mapsto> cpu_burn intensity)\<rparr>))
            \<lparr>processes := processes w @ [?p]\<rparr>"
    from Suc.prems Suc have nofail: "\<not> start_fails env ?p"
      by auto
    have st: "started ?w = Suc ?p"
      by simp
    have 1: "k' < n"
      using Suc.prems Suc by simp
    have 2: "\<forall>j<k'. \<not> start_fails env (started ?w + j)"
      using Suc.prems(2) Suc by (auto simp: st)
    have 3: "start_fails env (started ?w + k')"
      using Suc.prems(3) Suc by (simp add: st)
    have upt: "[?p ..< ?p + k] = ?p # [Suc ?p ..< Suc ?p + k']"
      using Suc by (simp add: upt_rec)
    have "stress_cpu_loop env (Suc n) intensity w = stress_cpu_loop env n intensity ?w"
      using nofail by (simp add: Let_def)
    also note Suc.IH [OF 1 2 3]
    finally show ?thesis
      unfolding upt using Suc
      by (auto simp: emit_def fun_eq_iff intro!: tester.equality)
  qed
qed

lemma stress_memory_loop_fails:
  assumes "k < n" and "\<forall>j<k. \<not> start_fails env (started w + j)"
    and "start_fails env (started w + k)"
  shows "stress_memory_loop env n size_mb w =
    (Some (OtherException ''Process.start failed''),
     w\<lparr>memory_processes := memory_processes w @ [started w ..< started w + k],
       alive := (\<lambda>p. p \<in> {started w ..< started w + k} \<or> alive w p),
       target := (\<lambda>p. if p \<in> {started w ..< started w + k}
                       then Some (memory_burn_target size_mb) else target w p),
       started := started w + k + 1,
       trace := trace w @
         map (\<lambda>p. Start p (memory_burn_target size_mb)) [started w ..< started w + k]\<rparr>)"
  using assms
proof (induction n arbitrary: k w)
  case 0
  then show ?case by simp
next
  case (Suc n)
  show ?case
  proof (cases k)
    case 0
    with Suc.prems show ?thesis by (simp add: Let_def)
  next
    case (Suc k')
    let ?p = "started w"
    let ?w = "(emit (Start ?p (memory_burn_target size_mb))
            (w\<lparr>started := Suc ?p, alive := (alive w)(?p := True),
                target := (target w)(?p \<mapsto> memory_burn_target size_mb)\<rparr>))
            \<lparr>memory_processes := memory_processes w @ [?p]\<rparr>"
    from Suc.prems Suc have nofail: "\<not> start_fails env ?p"
      by auto
    have st: "started ?w = Suc ?p"
      by simp
    have 1: "k' < n"
      using Suc.prems Suc by simp
    have 2: "\<forall>j<k'. \<not> start_fails env (started ?w + j)"
      using Suc.prems(2) Suc by (auto simp: st)
    have 3: "start_fails env (started ?w + k')"
      using Suc.prems(3) Suc by (simp add: st)
    have upt: "[?p ..< ?p + k] = ?p # [Suc ?p ..< Suc ?p + k']"
      using Suc by (simp add: upt_rec)
    have "stress_memory_loop env (Suc n) size_mb w = stress_memory_loop env n size_mb ?w"
      using nofail by (simp add: Let_def)
    also note Suc.IH [OF 1 2 3]
    finally show ?thesis
      unfolding upt using Suc
      by (auto simp: emit_def fun_eq_iff intro!: tester.equality)
  qed
qed

lemma filter_old_pids:
  assumes "list_all (\<lambda>p. p < s) xs"
  shows "filter (\<lambda>p. p \<in> {s ..< s + m} \<or> f p) xs = filter f (xs :: nat list)"
proof (rule filter_cong [OF refl])
  fix x
  assume "x \<in> set xs"
  with assms have "x < s"
    by (simp add: list_all_iff)
  then show "(x \<in> {s ..< s + m} \<or> f x) = f x"
    by simp
qed

lemma filter_new_pids: "filter (\<lambda>p. p \<in> {s ..< s + m} \<or> f p) [s ..< s + m] = [s ..< s + m]"
  by (simp add: filter_id_conv)

text \<open>
  Claim C9. If the \<open>k\<close>-th of the requested worker processes is the first whose start
  fails, \<^verbatim>\<open>stress_cpu\<close> (and likewise \<^verbatim>\<open>stress_memory\<close>) logs the error and raises the
  exception again; exactly the \<open>k - 1\<close> processes started before have been appended to
  its tracked list, the handle of the failed start has not, and the other list is
  unchanged. A \<^verbatim>\<open>cleanup_processes\<close> that follows (in the process that started the
  workers, where the liveness tests of its handles do not raise) calls \<^verbatim>\<open>terminate\<close> on
  precisely the workers that were started: the tracked handles that were alive before,
  and the \<open>k - 1\<close> new ones.
\<close>

theorem spawn_failure_tracks_started:
  assumes fresh: "fresh_pids w" and k: "1 \<le> k" "k \<le> nat n"
    and ok: "\<forall>j<k - 1. \<not> start_fails env (started w + j)"
    and fail: "start_fails env (started w + (k - 1))"
  shows "fst (stress_cpu env n duration intensity w) =
           Some (OtherException ''Process.start failed'')
    \<and> processes (snd (stress_cpu env n duration intensity w)) =
        processes w @ [started w ..< started w + (k - 1)]
    \<and> memory_processes (snd (stress_cpu env n duration intensity w)) = memory_processes w
    \<and> trace (snd (stress_cpu env n duration intensity w)) =
        trace w @ map (\<lambda>p. Start p (cpu_burn intensity)) [started w ..< started w + (k - 1)] @
        [Log ERROR (Error_starting_cpu (OtherException ''Process.start failed''))]
    \<and> (list_all (\<lambda>q. \<not> is_alive_fails env q)
           (tracked (snd (stress_cpu env n duration intensity w))) \<longrightarrow>
         terminated (trace (snd (cleanup_processes env
            (snd (stress_cpu env n duration intensity w))))) =
         terminated (trace w) @ filter (alive w) (processes w) @
         [started w ..< started w + (k - 1)] @ filter (alive w) (memory_processes w))
    \<and> fst (stress_memory env n size_mb w) = Some (OtherException ''Process.start failed'')
    \<and> processes (snd (stress_memory env n size_mb w)) = processes w
    \<and> memory_processes (snd (stress_memory env n size_mb w)) =
        memory_processes w @ [started w ..< started w + (k - 1)]
    \<and> trace (snd (stress_memory env n size_mb w)) =
        trace w @
        map (\<lambda>p. Start p (memory_burn_target size_mb)) [started w ..< started w + (k - 1)] @
        [Log ERROR (Error_starting_memory (OtherException ''Process.start failed''))]
    \<and> (list_all (\<lambda>q. \<not> is_alive_fails env q)
           (tracked (snd (stress_memory env n size_mb w))) \<longrightarrow>
         terminated (trace (snd (cleanup_processes env (snd (stress_memory env n size_mb w))))) =
         terminated (trace w) @ filter (alive w) (processes w) @
         filter (alive w) (memory_processes w) @ [started w ..< started w + (k - 1)])"
proof -
  let ?new = "[started w ..< started w + (k - 1)]"
  have lt: "k - 1 < nat n"
    using k by simp
  have old: "list_all (\<lambda>p. p < started w) (processes w)"
      "list_all (\<lambda>p. p < started w) (memory_processes w)"
    using fresh by (simp_all add: fresh_pids_def tracked_def)
  have dist: "distinct (processes w @ ?new @ memory_processes w)"
      "distinct (processes w @ memory_processes w @ ?new)"
  proof -
    have old_lt: "x < started w" if "x \<in> set (processes w) \<union> set (memory_processes w)" for x
      using that fresh by (auto simp: fresh_pids_def tracked_def list_all_iff)
    have "x \<notin> set ?new" if "x \<in> set (processes w)" for x
      using old_lt [of x] that by simp
    then have 1: "set (processes w) \<inter> set ?new = {}"
      by blast
    have "x \<notin> set ?new" if "x \<in> set (memory_processes w)" for x
      using old_lt [of x] that by simp
    then have 2: "set (memory_processes w) \<inter> set ?new = {}"
      by blast
    have 3: "distinct (processes w @ memory_processes w)"
      using fresh by (simp add: fresh_pids_def tracked_def)
    from 1 2 3 show "distinct (processes w @ ?new @ memory_processes w)"
      "distinct (processes w @ memory_processes w @ ?new)"
      by auto
  qed
  note cpu = stress_cpu_loop_fails [OF lt ok fail, of intensity]
  note mem = stress_memory_loop_fails [OF lt ok fail, of size_mb]
  have c1: "fst (stress_cpu env n duration intensity w) =
           Some (OtherException ''Process.start failed'')"
    and c2: "processes (snd (stress_cpu env n duration intensity w)) = processes w @ ?new"
    and c3: "memory_processes (snd (stress_cpu env n duration intensity w)) = memory_processes w"
    and c4: "trace (snd (stress_cpu env n duration intensity w)) =
        trace w @ map (\<lambda>p. Start p (cpu_burn intensity)) ?new @
        [Log ERROR (Error_starting_cpu (OtherException ''Process.start failed''))]"
    and c5: "alive (snd (stress_cpu env n duration intensity w)) =
        (\<lambda>p. p \<in> {started w ..< started w + (k - 1)} \<or> alive w p)"
    by (simp_all add: stress_cpu_def cpu)
  let ?c = "snd (stress_cpu env n duration intensity w)"
  have ct: "tracked ?c = processes w @ ?new @ memory_processes w"
    by (simp only: tracked_def c2 c3 append_assoc)
  have cd: "distinct (tracked ?c)"
    by (simp only: ct dist(1))
  have c6: "terminated (trace (snd (cleanup_processes env ?c))) =
        terminated (trace w) @ filter (alive w) (processes w) @ ?new @
        filter (alive w) (memory_processes w)"
    if own: "list_all (\<lambda>q. \<not> is_alive_fails env q) (tracked ?c)"
  proof -
    have "terminated (trace (snd (cleanup_processes env ?c))) =
        terminated (trace ?c) @ filter (alive ?c) (tracked ?c)"
      by (rule terminated_cleanup_processes [OF cd own])
    also have "terminated (trace ?c) = terminated (trace w)"
      by (simp add: c4)
    also have "filter (alive ?c) (tracked ?c) =
        filter (alive w) (processes w) @ ?new @ filter (alive w) (memory_processes w)"
      by (simp only: ct c5 filter_append filter_old_pids [OF old(1)] filter_old_pids [OF old(2)]
          filter_new_pids)
    finally show ?thesis .
  qed
  have m1: "fst (stress_memory env n size_mb w) = Some (OtherException ''Process.start failed'')"
    and m2: "processes (snd (stress_memory env n size_mb w)) = processes w"
    and m3: "memory_processes (snd (stress_memory env n size_mb w)) = memory_processes w @ ?new"
    and m4: "trace (snd (stress_memory env n size_mb w)) =
        trace w @ map (\<lambda>p. Start p (memory_burn_target size_mb)) ?new @
        [Log ERROR (Error_starting_memory (OtherException ''Process.start failed''))]"
    and m5: "alive (snd (stress_memory env n size_mb w)) =
        (\<lambda>p. p \<in> {started w ..< started w + (k - 1)} \<or> alive w p)"
    by (simp_all add: stress_memory_def mem)
  let ?m = "snd (stress_memory env n size_mb w)"
  have mt: "tracked ?m = processes w @ memory_processes w @ ?new"
    by (simp only: tracked_def m2 m3)
  have md: "distinct (tracked ?m)"
    by (simp only: mt dist(2))
  have m6: "terminated (trace (snd (cleanup_processes env ?m))) =
        terminated (trace w) @ filter (alive w) (processes w) @
        filter (alive w) (memory_processes w) @ ?new"
    if own: "list_all (\<lambda>q. \<not> is_alive_fails env q) (tracked ?m)"
  proof -
    have "terminated (trace (snd (cleanup_processes env ?m))) =
        terminated (trace ?m) @ filter (alive ?m) (tracked ?m)"
      by (rule terminated_cleanup_processes [OF md own])
    also have "terminated (trace ?m) = terminated (trace w)"
      by (simp add: m4)
    also have "filter (alive ?m) (tracked ?m) =
        filter (alive w) (processes w) @ filter (alive w) (memory_processes w) @ ?new"
      by (simp only: mt m5 filter_append filter_old_pids [OF old(1)] filter_old_pids [OF old(2)]
          filter_new_pids)
    finally show ?thesis .
  qed
  from c1 c2 c3 c4 c6 m1 m2 m3 m4 m6 show ?thesis
    by blast
qed

lemma third_start_fails_example:
  "stress_cpu third_start_fails 4 10 1 boot =
     (Some (OtherException ''Process.start failed''),
      boot\<lparr>processes := [0, 1],
        alive := (\<lambda>p. p \<in> {0 ..< 2}),
        target := (\<lambda>p. if p \<in> {0 ..< 2} then Some (cpu_burn 1) else None),
        started := 3,
        trace := [Start 0 (cpu_burn 1), Start 1 (cpu_burn 1),
          Log ERROR (Error_starting_cpu (OtherException ''Process.start failed''))]\<rparr>)"
  by (auto simp: stress_cpu_def third_start_fails_def quiet_host_def boot_def eval_nat_numeral
      Let_def emit_def fun_eq_iff)

theorem spawn_failure_tracks_started_witness:
  "fresh_pids boot
   \<and> \<not> start_fails third_start_fails 0 \<and> \<not> start_fails third_start_fails 1
   \<and> start_fails third_start_fails 2
   \<and> processes (snd (stress_cpu third_start_fails 4 10 1 boot)) = [0, 1]
   \<and> list_all (\<lambda>q. \<not> is_alive_fails third_start_fails q)
       (tracked (snd (stress_cpu third_start_fails 4 10 1 boot)))
   \<and> terminated (trace (snd (cleanup_processes third_start_fails
         (snd (stress_cpu third_start_fails 4 10 1 boot))))) = [0, 1]
   \<and> memory_processes (snd (stress_memory third_start_fails 4 100 boot)) = [0, 1]"
proof -
  have 1: "fresh_pids boot"
    by (simp add: fresh_pids_def tracked_def boot_def)
  have 2: "(1::nat) \<le> 3" "(3::nat) \<le> nat 4"
    by simp_all
  have 3: "\<forall>j<3 - 1. \<not> start_fails third_start_fails (started boot + j)"
    by (simp add: third_start_fails_def quiet_host_def boot_def)
  have 4: "start_fails third_start_fails (started boot + (3 - 1))"
    by (simp add: third_start_fails_def quiet_host_def boot_def)
  have upt: "[0 ..< 2] = [0, Suc 0]"
    by (simp add: upt_rec)
  from spawn_failure_tracks_started [OF 1 2 3 4, of 10 1 100] 3 4 1 show ?thesis
    by (simp add: boot_def upt third_start_fails_def quiet_host_def list_all_iff)
qed

section \<open>Cleanup on every exit path of the stress test\<close>

lemma cleanups_append [simp]: "cleanups (s @ t) = cleanups s + cleanups t"
  by (simp add: cleanups_def)

lemma cleanups_Nil [simp]: "cleanups [] = 0"
  by (simp add: cleanups_def)

lemma cleanups_Cons [simp]:
  "cleanups (e # t) = (if e = Log INFO All_processes_cleaned_up then Suc (cleanups t) else cleanups t)"
  by (simp add: cleanups_def)

lemma cleanups_map_Start [simp]: "cleanups (map (\<lambda>p. Start p x) ps) = 0"
  by (induction ps) simp_all

lemma cleanups_cleanup_step [simp]:
  "cleanups (trace (cleanup_step env q w)) = cleanups (trace w)"
  by (simp add: cleanup_step_def terminate_process_def Let_def)

lemma cleanups_cleanup_loop [simp]:
  "cleanups (trace (snd (cleanup_loop env qs w))) = cleanups (trace w)"
proof (induction qs arbitrary: w)
  case Nil
  show ?case by simp
next
  case (Cons q qs)
  show ?case
  proof (cases "is_alive_fails env q")
    case True
    then show ?thesis by (simp add: cleanup_process_raises)
  next
    case False
    then show ?thesis by (simp add: cleanup_process_ok Cons)
  qed
qed

text \<open>
  Whether it ends by an exception or not, \<^verbatim>\<open>cleanup_processes\<close> removes no trace of an
  earlier cleanup; when it ends without one, it has logged its final line and cleared
  both lists.
\<close>

lemma cleanups_cleanup_processes_le:
  "cleanups (trace w) \<le> cleanups (trace (snd (cleanup_processes env w)))"
proof -
  obtain r w1 where loop: "cleanup_loop env (processes w @ memory_processes w) w = (r, w1)"
    by (cases "cleanup_loop env (processes w @ memory_processes w) w")
  then have "w1 = snd (cleanup_loop env (processes w @ memory_processes w) w)"
    by simp
  then have "cleanups (trace w1) = cleanups (trace w)"
    by simp
  then show ?thesis
    by (cases r) (simp_all add: cleanup_processes_def Let_def loop)
qed

lemma cleanup_processes_None_iff:
  "fst (cleanup_processes env w) = None \<longleftrightarrow>
     list_all (\<lambda>q. \<not> is_alive_fails env q) (processes w @ memory_processes w)"
  using cleanup_processes_raises(1) [of env w] cleanup_processes_ok [of env w]
  by fastforce

lemma cleanup_processes_completes:
  assumes "list_all (\<lambda>q. \<not> is_alive_fails env q) (processes w @ memory_processes w)"
  shows "cleanups (trace (snd (cleanup_processes env w))) = Suc (cleanups (trace w))"
    and "last (trace (snd (cleanup_processes env w))) = Log INFO All_processes_cleaned_up"
    and "processes (snd (cleanup_processes env w)) = []"
    and "memory_processes (snd (cleanup_processes env w)) = []"
proof -
  have fold: "cleanups (trace (fold (cleanup_step env) qs v)) = cleanups (trace v)" for qs v
    by (induction qs arbitrary: v) simp_all
  show "cleanups (trace (snd (cleanup_processes env w))) = Suc (cleanups (trace w))"
    by (simp add: cleanup_processes_ok [OF assms] fold)
  show "last (trace (snd (cleanup_processes env w))) = Log INFO All_processes_cleaned_up"
    "processes (snd (cleanup_processes env w)) = []"
    "memory_processes (snd (cleanup_processes env w)) = []"
    by (simp_all add: cleanup_processes_ok [OF assms])
qed

lemma stress_cpu_loop_quiet:
  "stress_cpu_loop env n intensity w = (r, w') \<Longrightarrow>
     cleanups (trace w') = cleanups (trace w) \<and> terminated (trace w') = terminated (trace w)"
  by (induction env n intensity w rule: stress_cpu_loop.induct)
     (auto simp: Let_def split: if_splits)

lemma stress_memory_loop_quiet:
  "stress_memory_loop env n size_mb w = (r, w') \<Longrightarrow>
     cleanups (trace w') = cleanups (trace w) \<and> terminated (trace w') = terminated (trace w)"
  by (induction env n size_mb w rule: stress_memory_loop.induct)
     (auto simp: Let_def split: if_splits)

lemma stress_cpu_quiet:
  "stress_cpu env cores duration intensity w = (r, w') \<Longrightarrow>
     cleanups (trace w') = cleanups (trace w) \<and> terminated (trace w') = terminated (trace w)"
  by (auto simp: stress_cpu_def split: prod.splits option.splits if_splits
      dest: stress_cpu_loop_quiet)

lemma stress_memory_quiet:
  "stress_memory env procs size_mb w = (r, w') \<Longrightarrow>
     cleanups (trace w') = cleanups (trace w) \<and> terminated (trace w') = terminated (trace w)"
  by (auto simp: stress_memory_def split: prod.splits option.splits if_splits
      dest: stress_memory_loop_quiet)

lemma advance_simps [simp]:
  "trace (advance env w) = trace w"
  "processes (advance env w) = processes w"
  "memory_processes (advance env w) = memory_processes w"
  "running (advance env w) = running w"
  "alive (advance env w) = alive w"
  "ticks (advance env w) = Suc (ticks w)"
  by (simp_all add: advance_def)

lemma display_dashboard_simps [simp]:
  "cleanups (trace (display_dashboard env w)) = cleanups (trace w)"
  "terminated (trace (display_dashboard env w)) = terminated (trace w)"
  "processes (display_dashboard env w) = processes w"
  "memory_processes (display_dashboard env w) = memory_processes w"
  "running (display_dashboard env w) = running w"
  "alive (display_dashboard env w) = alive w"
  by (simp_all add: display_dashboard_def)

lemma signal_handler_cleanups:
  assumes "signal_handler env w = (r, w')"
  shows "cleanups (trace w) \<le> cleanups (trace w')"
proof -
  let ?w2 = "(logger_info Initiating_shutdown (print Interrupt_received w))\<lparr>running := False\<rparr>"
  have "w' = snd (cleanup_processes env ?w2)"
    using assms by (auto simp: signal_handler_def Let_def split: prod.splits option.splits)
  with cleanups_cleanup_processes_le [of ?w2 env] show ?thesis
    by simp
qed

lemma monitor_loop_cleanups:
  "monitor_loop env start_time duration w = (r, w') \<Longrightarrow>
     cleanups (trace w) \<le> cleanups (trace w')"
proof (induction env start_time duration w arbitrary: r w' rule: monitor_loop.induct)
  case (1 env start_time duration w)
  show ?case
  proof (cases "running w \<and> int (now w) - int start_time < duration * 1000")
    case False
    with "1.prems" show ?thesis by simp
  next
    case True
    show ?thesis
    proof (cases "tick env (ticks w)")
      case (Tick_raise e)
      with True "1.prems" show ?thesis by simp
    next
      case Tick_signal
      with True "1.prems" show ?thesis
        by (simp add: signal_handler_cleanups)
    next
      case Tick_ok
      with True "1.prems" "1.IH"(1) [OF True Tick_ok] show ?thesis
        by simp
    next
      case Tick_poll_fails
      with True "1.prems" "1.IH"(2) [OF True Tick_poll_fails] show ?thesis
        by simp
    qed
  qed
qed

lemma run_stress_test_try_cleanups:
  assumes "run_stress_test_try env c d i m s w = (r, w')"
  shows "cleanups (trace w) \<le> cleanups (trace w')"
proof (cases "sys_info_fails env")
  case True
  with assms show ?thesis by (simp add: run_stress_test_try_def)
next
  case False
  let ?w1 = "logger_info (Starting_stress_test c d i) (print System_info w)"
  have w1: "cleanups (trace ?w1) = cleanups (trace w)" by simp
  obtain r2 w2 where cpu: "stress_cpu env c d i ?w1 = (r2, w2)" by (cases "stress_cpu env c d i ?w1")
  from stress_cpu_quiet [OF cpu] w1 have w2: "cleanups (trace w2) = cleanups (trace w)" by simp
  show ?thesis
  proof (cases r2)
    case (Some e)
    with assms False cpu w2 show ?thesis by (simp add: run_stress_test_try_def)
  next
    case None
    obtain r3 w3 where mem: "(if m > 0 then stress_memory env m s w2 else (None, w2)) = (r3, w3)"
      by (cases "if m > 0 then stress_memory env m s w2 else (None, w2)")
    have w3: "cleanups (trace w3) = cleanups (trace w)"
      using mem w2 stress_memory_quiet [of env m s w2 r3 w3] by (auto split: if_splits)
    show ?thesis
    proof (cases r3)
      case (Some e)
      with assms False cpu None mem w3 show ?thesis by (simp add: run_stress_test_try_def)
    next
      case n3: None
      obtain r4 w4 where loop: "monitor_loop env (now w3) d w3 = (r4, w4)"
        by (cases "monitor_loop env (now w3) d w3")
      from monitor_loop_cleanups [OF loop] w3 have "cleanups (trace w) \<le> cleanups (trace w4)" by simp
      with assms False cpu None mem n3 loop show ?thesis
        by (cases r4) (auto simp: run_stress_test_try_def)
    qed
  qed
qed

lemma run_stress_test_except_cleanups:
  "cleanups (trace (snd (run_stress_test_except (r, w')))) = cleanups (trace w')"
  by (cases r) (simp_all add: run_stress_test_except_def)

text \<open>
  Claim C1. Every execution of \<^verbatim>\<open>run_stress_test\<close> invokes \<^verbatim>\<open>cleanup_processes\<close> before
  it returns, on every exit path (normal completion of the timed loop,
  \<open>KeyboardInterrupt\<close>, any other exception raised while spawning or in the monitoring
  loop, and an exception that no handler catches): the final state is the state in which
  \<^verbatim>\<open>cleanup_processes\<close> ends when called on the state that the \<^verbatim>\<open>try\<close> block and the
  handlers left. When the liveness tests of the handles tracked then do not raise (as in
  the process that started them), this cleanup runs to its end: the last event of the
  trace is its final log line, at least one more cleanup has completed than before the
  call, and both tracked lists are empty.
\<close>

theorem run_stress_test_always_cleans_up:
  "snd (run_stress_test env cpu_cores duration intensity mem_procs memory_size w) =
     snd (cleanup_processes env
       (snd (run_stress_test_except
          (run_stress_test_try env cpu_cores duration intensity mem_procs memory_size w))))
   \<and> cleanups (trace w) \<le>
       cleanups (trace (snd (run_stress_test_except
          (run_stress_test_try env cpu_cores duration intensity mem_procs memory_size w))))
   \<and> (list_all (\<lambda>q. \<not> is_alive_fails env q)
         (tracked (snd (run_stress_test_except
            (run_stress_test_try env cpu_cores duration intensity mem_procs memory_size w)))) \<longrightarrow>
       cleanups (trace w) <
         cleanups (trace (snd (run_stress_test env cpu_cores duration intensity mem_procs
            memory_size w)))
       \<and> last (trace (snd (run_stress_test env cpu_cores duration intensity mem_procs
            memory_size w))) = Log INFO All_processes_cleaned_up
       \<and> processes (snd (run_stress_test env cpu_cores duration intensity mem_procs
            memory_size w)) = []
       \<and> memory_processes (snd (run_stress_test env cpu_cores duration intensity mem_procs
            memory_size w)) = [])"
proof -
  let ?body = "run_stress_test_try env cpu_cores duration intensity mem_procs memory_size w"
  let ?w2 = "snd (run_stress_test_except ?body)"
  let ?res = "snd (run_stress_test env cpu_cores duration intensity mem_procs memory_size w)"
  obtain r w' where body: "?body = (r, w')"
    by (cases ?body)
  have res: "?res = snd (cleanup_processes env ?w2)"
    by (simp add: run_stress_test_def split: prod.splits option.splits)
  have "cleanups (trace w) \<le> cleanups (trace w')"
    by (rule run_stress_test_try_cleanups [OF body])
  then have mono: "cleanups (trace w) \<le> cleanups (trace ?w2)"
    by (simp add: body run_stress_test_except_cleanups)
  have complete: "cleanups (trace w) < cleanups (trace ?res)
      \<and> last (trace ?res) = Log INFO All_processes_cleaned_up
      \<and> processes ?res = [] \<and> memory_processes ?res = []"
    if "list_all (\<lambda>q. \<not> is_alive_fails env q) (tracked ?w2)"
  proof -
    from that have ok: "list_all (\<lambda>q. \<not> is_alive_fails env q)
        (processes ?w2 @ memory_processes ?w2)"
      by (simp only: tracked_def)
    from cleanup_processes_completes [OF ok] mono show ?thesis
      unfolding res by simp
  qed
  from res mono complete show ?thesis
    by blast
qed

theorem run_stress_test_always_cleans_up_witness:
  "list_all (\<lambda>q. \<not> is_alive_fails quiet_host q)
     (tracked (snd (run_stress_test_except (run_stress_test_try quiet_host 2 3 1 0 100 boot))))
   \<and> last (trace (snd (run_stress_test quiet_host 2 3 1 0 100 boot))) =
       Log INFO All_processes_cleaned_up
   \<and> processes (snd (run_stress_test quiet_host 2 3 1 0 100 boot)) = []
   \<and> memory_processes (snd (run_stress_test quiet_host 2 3 1 0 100 boot)) = []
   \<and> 0 < cleanups (trace (snd (run_stress_test quiet_host 2 3 1 0 100 boot)))"
proof -
  have own: "list_all (\<lambda>q. \<not> is_alive_fails quiet_host q) qs" for qs
    by (simp add: quiet_host_def list_all_iff)
  from run_stress_test_always_cleans_up [of quiet_host 2 3 1 0 100 boot] own
  have "cleanups (trace boot) < cleanups (trace (snd (run_stress_test quiet_host 2 3 1 0 100 boot)))
      \<and> last (trace (snd (run_stress_test quiet_host 2 3 1 0 100 boot))) =
          Log INFO All_processes_cleaned_up
      \<and> processes (snd (run_stress_test quiet_host 2 3 1 0 100 boot)) = []
      \<and> memory_processes (snd (run_stress_test quiet_host 2 3 1 0 100 boot)) = []"
    by blast
  moreover have "0 < m" if "cleanups (trace boot) < m" for m
    using that by simp
  ultimately show ?thesis
    using own by blast
qed

section \<open>The legacy mode\<close>

lemma legacy_loop_no_signal:
  assumes "\<forall>k. tick env k \<noteq> Tick_signal"
    and "legacy_loop env start_time duration w = (r, w')"
  shows "cleanups (trace w') = cleanups (trace w) \<and> terminated (trace w') = terminated (trace w)
    \<and> processes w' = processes w \<and> memory_processes w' = memory_processes w
    \<and> alive w' = alive w"
  using assms
proof (induction env start_time duration w arbitrary: r w' rule: legacy_loop.induct)
  case (1 env start_time duration w)
  note nosig = "1.prems"(1) and eq = "1.prems"(2)
  show ?case
  proof (cases "running w \<and> int (now w) - int start_time < duration * 1000")
    case False
    with eq show ?thesis by simp
  next
    case True
    show ?thesis
    proof (cases "tick env (ticks w)")
      case (Tick_raise e)
      with True eq show ?thesis by simp
    next
      case Tick_signal
      with nosig show ?thesis by simp
    next
      case Tick_ok
      with True eq "1.IH" [OF True Tick_ok nosig] show ?thesis
        by simp
    next
      case Tick_poll_fails
      with True eq show ?thesis
        by simp
    qed
  qed
qed

lemma main_handlers_quiet:
  assumes "main_try env a w = (Some e, w3)"
  shows "cleanups (trace (snd (main env a w))) = cleanups (trace w3)
    \<and> terminated (trace (snd (main env a w))) = terminated (trace w3)
    \<and> processes (snd (main env a w)) = processes w3
    \<and> memory_processes (snd (main env a w)) = memory_processes w3
    \<and> alive (snd (main env a w)) = alive w3"
  using assms by (cases e) (simp_all add: main_def)

text \<open>
  Claim C8. In the legacy mode \<^verbatim>\<open>cleanup_processes\<close> is reached only when the polling
  loop ends normally: the program then ends with the outcome of that cleanup, which, in
  the process that started the workers, runs to its end before the program exits with
  code 0. When the loop ends with an exception, the program does nothing but
  print in its handlers: no cleanup runs after the exception, no \<^verbatim>\<open>terminate\<close> is
  called, and the tracked handles stay as the loop left them. Unless a signal arrived
  (whose handler runs its own cleanup before it raises \<open>SystemExit\<close>), this means that
  no cleanup has run at all and that the workers started by \<^verbatim>\<open>stress_cpu\<close> are still
  tracked and alive when the program exits.
\<close>

theorem legacy_loop_exception_skips_cleanup:
  assumes "args_cpu_only a"
    and "validate_args (cpu_count env) a = Inr ws"
    and "CPUStressTester env
           (print (Legacy_mode (args_cores a) (args_time a) (args_intensity a))
              (fold (\<lambda>x. print (Warning x)) ws w)) = (None, w1)"
    and "stress_cpu env (args_cores a) (args_time a) (args_intensity a) w1 = (None, w2)"
    and "legacy_loop env (now w2) (args_time a) w2 = (r, w3)"
  shows "(r = None \<longrightarrow>
            main env a w =
              (case fst (cleanup_processes env w3) of
                 None \<Rightarrow> (0, print Legacy_finished (snd (cleanup_processes env w3)))
               | Some e \<Rightarrow>
                   (1, print (Unexpected_error ''can only test a child process'')
                         (snd (cleanup_processes env w3)))))
    \<and> (r = None \<and> list_all (\<lambda>q. \<not> is_alive_fails env q) (tracked w3) \<longrightarrow>
            main env a w = (0, print Legacy_finished (snd (cleanup_processes env w3)))
          \<and> cleanups (trace (snd (main env a w))) = Suc (cleanups (trace w3)))
    \<and> (r \<noteq> None \<longrightarrow>
            cleanups (trace (snd (main env a w))) = cleanups (trace w3)
          \<and> terminated (trace (snd (main env a w))) = terminated (trace w3)
          \<and> processes (snd (main env a w)) = processes w3
          \<and> memory_processes (snd (main env a w)) = memory_processes w3
          \<and> alive (snd (main env a w)) = alive w3)
    \<and> (r \<noteq> None \<and> (\<forall>k. tick env k \<noteq> Tick_signal) \<longrightarrow>
            cleanups (trace (snd (main env a w))) = cleanups (trace w2)
          \<and> terminated (trace (snd (main env a w))) = terminated (trace w2)
          \<and> processes (snd (main env a w)) = processes w2
          \<and> memory_processes (snd (main env a w)) = memory_processes w2
          \<and> alive (snd (main env a w)) = alive w2)"
proof -
  have body: "main_try env a w =
      (case r of
         None \<Rightarrow>
           (case cleanup_processes env w3 of
              (Some e, w4) \<Rightarrow> (Some e, w4)
            | (None, w4) \<Rightarrow> (None, print Legacy_finished w4))
       | Some e \<Rightarrow> (Some e, w3))"
    using assms by (simp add: main_try_def legacy_mode_def split: option.splits)
  have 0: "main env a w =
      (case fst (cleanup_processes env w3) of
         None \<Rightarrow> (0, print Legacy_finished (snd (cleanup_processes env w3)))
       | Some e \<Rightarrow>
           (1, print (Unexpected_error ''can only test a child process'')
                 (snd (cleanup_processes env w3))))" if "r = None"
  proof (cases "fst (cleanup_processes env w3)")
    case None
    with that body show ?thesis
      by (cases "cleanup_processes env w3") (simp add: main_def)
  next
    case (Some e)
    have "\<not> list_all (\<lambda>q. \<not> is_alive_fails env q) (processes w3 @ memory_processes w3)"
    proof
      assume "list_all (\<lambda>q. \<not> is_alive_fails env q) (processes w3 @ memory_processes w3)"
      then have "fst (cleanup_processes env w3) = None"
        by (simp only: cleanup_processes_None_iff)
      with Some show False
        by simp
    qed
    from cleanup_processes_raises(1) [OF this]
    have "fst (cleanup_processes env w3) = Some (OtherException ''can only test a child process'')" .
    with that body show ?thesis
      by (cases "cleanup_processes env w3") (simp add: main_def)
  qed
  have 1: "main env a w = (0, print Legacy_finished (snd (cleanup_processes env w3)))
      \<and> cleanups (trace (snd (main env a w))) = Suc (cleanups (trace w3))"
    if "r = None" "list_all (\<lambda>q. \<not> is_alive_fails env q) (tracked w3)"
  proof -
    from that(2) have ok: "list_all (\<lambda>q. \<not> is_alive_fails env q)
        (processes w3 @ memory_processes w3)"
      by (simp only: tracked_def)
    then have "fst (cleanup_processes env w3) = None"
      by (simp only: cleanup_processes_None_iff)
    with 0 [OF that(1)] cleanup_processes_completes(1) [OF ok] show ?thesis
      by simp
  qed
  have 2: "cleanups (trace (snd (main env a w))) = cleanups (trace w3)
          \<and> terminated (trace (snd (main env a w))) = terminated (trace w3)
          \<and> processes (snd (main env a w)) = processes w3
          \<and> memory_processes (snd (main env a w)) = memory_processes w3
          \<and> alive (snd (main env a w)) = alive w3" if "r \<noteq> None"
  proof -
    from that obtain e where "r = Some e" by auto
    with body have "main_try env a w = (Some e, w3)" by simp
    then show ?thesis by (rule main_handlers_quiet)
  qed
  have 3: "cleanups (trace (snd (main env a w))) = cleanups (trace w2)
          \<and> terminated (trace (snd (main env a w))) = terminated (trace w2)
          \<and> processes (snd (main env a w)) = processes w2
          \<and> memory_processes (snd (main env a w)) = memory_processes w2
          \<and> alive (snd (main env a w)) = alive w2"
    if "r \<noteq> None" "\<forall>k. tick env k \<noteq> Tick_signal"
    using 2 [OF that(1)] legacy_loop_no_signal [OF that(2) assms(5)] by simp
  from 0 1 2 3 show ?thesis by blast
qed


lemma legacy_example_spawn:
  "stress_cpu second_poll_fails 2 3 1
     (snd (CPUStressTester second_poll_fails (print (Legacy_mode 2 3 1) boot))) =
   (None, legacy_spawned)"
  by (auto simp: stress_cpu_def CPUStressTester_def second_poll_fails_def quiet_host_def
      boot_def eval_nat_numeral Let_def emit_def fun_eq_iff legacy_spawned_def)

lemma legacy_example_loop:
  "legacy_loop second_poll_fails 0 3 legacy_spawned =
     (Some (OtherException ''psutil error''), advance second_poll_fails (print Cpu_usage legacy_spawned))"
  by (simp add: second_poll_fails_def quiet_host_def legacy_spawned_def boot_def advance_def emit_def)

theorem legacy_loop_exception_skips_cleanup_witness:
  "args_cpu_only legacy_args
   \<and> cleanups (trace (snd (main second_poll_fails legacy_args boot))) = 0
   \<and> terminated (trace (snd (main second_poll_fails legacy_args boot))) = []
   \<and> processes (snd (main second_poll_fails legacy_args boot)) = [0, 1]
   \<and> alive (snd (main second_poll_fails legacy_args boot)) 0
   \<and> alive (snd (main second_poll_fails legacy_args boot)) 1"
proof -
  let ?w1 = "snd (CPUStressTester second_poll_fails (print (Legacy_mode 2 3 1) boot))"
  have 1: "args_cpu_only legacy_args"
    by (simp add: legacy_args_def)
  have 2: "validate_args (cpu_count second_poll_fails) legacy_args = Inr []"
    by (simp add: validate_args_def legacy_args_def advanced_args_def second_poll_fails_def
        quiet_host_def)
  have 3: "CPUStressTester second_poll_fails
      (print (Legacy_mode (args_cores legacy_args) (args_time legacy_args)
                (args_intensity legacy_args))
         (fold (\<lambda>x. print (Warning x)) [] boot)) = (None, ?w1)"
    by (simp add: CPUStressTester_def legacy_args_def advanced_args_def second_poll_fails_def
        quiet_host_def)
  have 4: "stress_cpu second_poll_fails (args_cores legacy_args) (args_time legacy_args)
      (args_intensity legacy_args) ?w1 = (None, legacy_spawned)"
    using legacy_example_spawn by (simp add: legacy_args_def advanced_args_def)
  have 5: "legacy_loop second_poll_fails (now legacy_spawned) (args_time legacy_args)
      legacy_spawned =
      (Some (OtherException ''psutil error''),
       advance second_poll_fails (print Cpu_usage legacy_spawned))"
    using legacy_example_loop
    by (simp add: legacy_args_def advanced_args_def legacy_spawned_def boot_def)
  have 6: "\<forall>k. tick second_poll_fails k \<noteq> Tick_signal"
    by (simp add: second_poll_fails_def quiet_host_def)
  from legacy_loop_exception_skips_cleanup [OF 1 2 3 4 5] 6 1 show ?thesis
    by (simp add: legacy_spawned_def boot_def)
qed

section \<open>Exit codes\<close>

lemma main_exit_code_validation:
  assumes "isl (validate_args (cpu_count env) a)"
  shows "fst (main env a w) = 1"
proof -
  from assms obtain msg where "validate_args (cpu_count env) a = Inl (ValueError msg)"
    by (auto simp: validate_args_def split: if_splits)
  then show ?thesis
    by (simp add: main_def main_try_def)
qed

lemma run_stress_test_swallows:
  assumes "fst (run_stress_test env cpu_cores duration intensity mem_procs memory_size w) = Some e"
    and "\<forall>q. \<not> is_alive_fails env q"
  shows "\<not> is_Exception e \<and> e \<noteq> KeyboardInterrupt"
proof -
  let ?out = "run_stress_test_except
      (run_stress_test_try env cpu_cores duration intensity mem_procs memory_size w)"
  have "list_all (\<lambda>q. \<not> is_alive_fails env q) (processes (snd ?out) @ memory_processes (snd ?out))"
    using assms(2) by (simp add: list_all_iff)
  then have "cleanup_processes env (snd ?out) = (None, snd (cleanup_processes env (snd ?out)))"
    by (simp add: cleanup_processes_ok)
  with assms(1) have "fst ?out = Some e"
    by (simp add: run_stress_test_def split: prod.splits)
  then show ?thesis
    by (auto simp: run_stress_test_except_def split: prod.splits option.splits if_splits)
qed

text \<open>
  In the dashboard mode, once the arguments are valid and the tester is constructed, no
  exception of the run reaches the handlers of the main program except a \<open>SystemExit\<close>
  (the final cleanup, in the process that started the workers, does not raise): the
  exit code is 0 whatever fails during the run.
\<close>

lemma advanced_mode_exit_code:
  assumes "\<not> args_cpu_only a" and "validate_args (cpu_count env) a = Inr ws"
    and "\<not> logging_fails env" and "\<forall>q. \<not> is_alive_fails env q"
  shows "fst (main env a w) = 0 \<or> (\<exists>c. fst (main_try env a w) = Some (SystemExit c))"
proof -
  let ?w0 = "fold (\<lambda>x. print (Warning x)) ws w"
  let ?w1 = "print (Configuration (args_cores a) (args_time a) (args_intensity a)
               (args_memory_processes a) (args_memory_size a))
               (logger_info Log_file_created
                  (?w0\<lparr>processes := [], memory_processes := [], running := True\<rparr>))"
  let ?run = "run_stress_test env (args_cores a) (args_time a) (args_intensity a)
           (args_memory_processes a) (args_memory_size a) ?w1"
  have body: "main_try env a w = ?run"
    using assms by (simp add: main_try_def advanced_mode_def CPUStressTester_def Let_def)
  obtain r w' where run: "?run = (r, w')"
    by (cases ?run)
  show ?thesis
  proof (cases r)
    case None
    with run body show ?thesis
      by (simp add: main_def)
  next
    case (Some e)
    with run have "fst ?run = Some e"
      by simp
    from run_stress_test_swallows [OF this assms(4)] obtain c where "e = SystemExit c"
      by (cases e) auto
    with Some run body show ?thesis
      by simp
  qed
qed

text \<open>
  Claim C4 at a failing input. On a host where \<^verbatim>\<open>Process.start\<close> fails, with valid
  arguments: in the dashboard mode the exception of the failed spawn is caught by the
  \<^verbatim>\<open>except Exception\<close> of \<^verbatim>\<open>run_stress_test\<close>, and the program exits with code 0, where
  the claim says 1; in the legacy mode the same failure reaches the handler of the main
  program, and the exit code is 1.
\<close>

theorem spawn_failure_exit_code:
  "fst (main no_start advanced_args boot) = 0
   \<and> trace (snd (main no_start advanced_args boot)) =
       [Log INFO Log_file_created, Print (Configuration 2 3 1 0 100),
        Print System_info, Log INFO (Starting_stress_test 2 3 1),
        Log ERROR (Error_starting_cpu (OtherException ''Process.start failed'')),
        Print (Error_during_stress_test (OtherException ''Process.start failed'')),
        Log ERROR (Error_during_stress_test (OtherException ''Process.start failed'')),
        Log INFO All_processes_cleaned_up]
   \<and> fst (main no_start legacy_args boot) = 1"
  by (simp add: main_def main_try_def advanced_mode_def legacy_mode_def run_stress_test_def
      run_stress_test_except_def run_stress_test_try_def stress_cpu_def CPUStressTester_def
      validate_args_def cleanup_processes_def no_start_def quiet_host_def advanced_args_def
      legacy_args_def boot_def eval_nat_numeral Let_def emit_def)

text \<open>The other exit codes of the claim, on a host where nothing fails.\<close>

lemma quiet_host_exit_codes:
  "fst (main quiet_host advanced_args boot) = 0"
  "fst (main quiet_host legacy_args boot) = 0"
  "fst (main (quiet_host\<lparr>tick := (\<lambda>_. Tick_signal)\<rparr>) advanced_args boot) = 0"
  "fst (main (quiet_host\<lparr>tick := (\<lambda>_. Tick_raise KeyboardInterrupt)\<rparr>) advanced_args boot) = 0"
  "fst (main (quiet_host\<lparr>tick := (\<lambda>_. Tick_raise KeyboardInterrupt)\<rparr>) legacy_args boot) = 0"
  "fst (main quiet_host (advanced_args\<lparr>args_cores := 0\<rparr>) boot) = 1"
  by (simp_all add: main_def main_try_def advanced_mode_def legacy_mode_def run_stress_test_def
      run_stress_test_except_def run_stress_test_try_def stress_cpu_def CPUStressTester_def
      validate_args_def cleanup_processes_def cleanup_process_def terminate_process_def
      signal_handler_def display_dashboard_def advance_def quiet_host_def advanced_args_def
      legacy_args_def boot_def eval_nat_numeral Let_def emit_def exited_def)

end
